theory Spec2Isabelle
  imports Main "HOL-Library.Sublist"
begin

section \<open>Strings\<close>

text \<open>
  A JavaScript string is a sequence of code units. The model uses \<^typ>\<open>string\<close>; a
  \<^typ>\<open>char\<close> stands for a code unit in the range 0..255 (ASCII and Latin-1), which
  is where the built-ins below are written out. Code units above 255 are outside the model.
\<close>

definition isSpace :: "char \<Rightarrow> bool" where
  \<comment> \<open>the characters removed by \<open>trim()\<close> and matched by \<open>\s\<close>: TAB, LF, VT, FF, CR, SPACE, NBSP\<close>
  "isSpace c = (let n = (of_char c :: nat) in (9 \<le> n \<and> n \<le> 13) \<or> n = 32 \<or> n = 160)"

definition trim :: "string \<Rightarrow> string" where
  "trim s = rev (dropWhile isSpace (rev (dropWhile isSpace s)))"

definition lowerChar :: "char \<Rightarrow> char" where
  "lowerChar c =
     (let n = (of_char c :: nat)
      in if (65 \<le> n \<and> n \<le> 90) \<or> (192 \<le> n \<and> n \<le> 222 \<and> n \<noteq> 215)
         then char_of (n + 32) else c)"

definition toLowerCase :: "string \<Rightarrow> string" where
  "toLowerCase s = map lowerChar s"

definition startsWith :: "string \<Rightarrow> string \<Rightarrow> bool" where
  "startsWith haystack needle = (take (length needle) haystack = needle)"

definition endsWith :: "string \<Rightarrow> string \<Rightarrow> bool" where
  "endsWith haystack needle =
     (length needle \<le> length haystack \<and>
      drop (length haystack - length needle) haystack = needle)"

fun includes_str :: "string \<Rightarrow> string \<Rightarrow> bool" where
  "includes_str [] needle = (needle = [])"
| "includes_str (c # cs) needle = (startsWith (c # cs) needle \<or> includes_str cs needle)"

definition truthy :: "string \<Rightarrow> bool" where
  \<comment> \<open>a string in a boolean position: only the empty string is falsy\<close>
  "truthy s = (s \<noteq> [])"

section \<open>Rows, filters and agents (src/app/page.tsx)\<close>

text \<open>
  \<open>DataRow = Record<string, string>\<close>: the own entries of the object in the order of
  \<open>Object.entries\<close>; the keys of an object are distinct. The rows are plain objects
  (\<open>const mapped: DataRow = {}\<close>), so a property read \<open>row[key]\<close> that finds no own
  entry goes on to \<open>Object.prototype\<close>: it answers a built-in function for the names of
  its methods, \<open>Object.prototype\<close> itself for \<open>__proto__\<close>, and \<open>undefined\<close>
  (\<open>None\<close>) for every other key. \<open>toStr\<close> is the conversion \<open>String(v)\<close>; the text
  of a built-in function is given as V8 prints it.
\<close>

type_synonym DataRow = "(string \<times> string) list"

datatype jsValue =
    JsString string
  | JsFunction string
  | JsObject

datatype jsError = TypeError

definition toStr :: "jsValue \<Rightarrow> string" where
  "toStr v =
     (case v of
        JsString s \<Rightarrow> s
      | JsFunction name \<Rightarrow> ''function '' @ name @ ''() { [native code] }''
      | JsObject \<Rightarrow> ''[object Object]'')"

definition objectPrototype :: "string \<Rightarrow> jsValue option" where
  "objectPrototype key =
     (if key = ''constructor'' then Some (JsFunction ''Object'')
      else if key = ''__proto__'' then Some JsObject
      else if key \<in> set [''__defineGetter__'', ''__defineSetter__'', ''hasOwnProperty'',
                           ''__lookupGetter__'', ''__lookupSetter__'', ''isPrototypeOf'',
                           ''propertyIsEnumerable'', ''toString'', ''valueOf'',
                           ''toLocaleString'']
      then Some (JsFunction key)
      else None)"

definition rowGet :: "DataRow \<Rightarrow> string \<Rightarrow> jsValue option" where
  \<comment> \<open>\<open>row[key]\<close>\<close>
  "rowGet row key =
     (case map_of row key of
        Some v \<Rightarrow> Some (JsString v)
      | None \<Rightarrow> objectPrototype key)"

record UploadResult =
  u_columns :: "string list"
  u_rows :: "DataRow list"
  u_fileName :: string

record AgentFilter =
  f_column :: string
  f_operator :: string
  f_value :: string

record AgentDefinition =
  a_id :: string
  a_name :: string
  a_subjectTemplate :: string
  a_bodyTemplate :: string
  a_filter :: "AgentFilter option"

definition normalizeValue :: "jsValue option \<Rightarrow> string" where
  "normalizeValue v = (case v of None \<Rightarrow> [] | Some x \<Rightarrow> trim (toStr x))"

subsection \<open>renderTemplate\<close>

text \<open>
  The pattern \<open>/{{\s*([^}]+)\s*}}/g\<close> tried at the head of the remaining input. After the
  two opening braces the class \<open>[^}]+\<close> runs up to the first closing brace, so a match
  needs at least one character before that brace and a second closing brace right after
  it. The leading \<open>\s*\<close> is greedy but gives one character back when everything before
  the closing brace is white space; the trailing \<open>\s*\<close> is always empty. The result is
  the captured group and the input after the match.
\<close>

definition matchToken :: "string \<Rightarrow> (string \<times> string) option" where
  "matchToken s =
     (case s of
        c1 # c2 # rest \<Rightarrow>
          if c1 = CHR ''{'' \<and> c2 = CHR ''{'' then
            (let inner = takeWhile (\<lambda>c. c \<noteq> CHR ''}'') rest;
                 tail = dropWhile (\<lambda>c. c \<noteq> CHR ''}'') rest
             in case tail of
                  d1 # d2 # after \<Rightarrow>
                    if inner \<noteq> [] \<and> d2 = CHR ''}'' then
                      Some (if dropWhile isSpace inner = [] then [last inner]
                            else dropWhile isSpace inner, after)
                    else None
                | _ \<Rightarrow> None)
          else None
      | _ \<Rightarrow> None)"

lemma matchToken_shorter:
  "matchToken s = Some (rawKey, after) \<Longrightarrow> length after < length s"
proof -
  assume m: "matchToken s = Some (rawKey, after)"
  then obtain c1 c2 rest where s: "s = c1 # c2 # rest"
    by (cases s; cases "tl s") (auto simp: matchToken_def)
  from m s obtain d1 d2 where "dropWhile (\<lambda>c. c \<noteq> CHR ''}'') rest = d1 # d2 # after"
    by (auto simp: matchToken_def Let_def split: if_splits list.splits)
  then have "length after < length (dropWhile (\<lambda>c. c \<noteq> CHR ''}'') rest)"
    by simp
  also have "\<dots> \<le> length rest"
    by (rule length_dropWhile_le)
  finally show ?thesis using s by simp
qed

text \<open>
  \<open>template.replace(pattern, replacer)\<close> with a global pattern: scan from the left,
  replace a match by the replacer's result and continue after the match, copy any other
  character.
\<close>

function replaceTokens :: "(string \<Rightarrow> string) \<Rightarrow> string \<Rightarrow> string" where
  "replaceTokens replacer [] = []"
| "replaceTokens replacer (c # cs) =
     (case matchToken (c # cs) of
        Some (rawKey, after) \<Rightarrow> replacer rawKey @ replaceTokens replacer after
      | None \<Rightarrow> c # replaceTokens replacer cs)"
  by pat_completeness auto
termination
  by (relation "measure (\<lambda>(replacer, s). length s)") (auto dest: matchToken_shorter)

definition loweredMap :: "DataRow \<Rightarrow> (string \<rightharpoonup> string)" where
  \<comment> \<open>\<open>new Map(entries)\<close>: a later entry replaces an earlier one with the same key\<close>
  "loweredMap row = fold (\<lambda>(key, v) m. m(toLowerCase (trim key) \<mapsto> v)) row Map.empty"

text \<open>
  The replacer answers \<open>direct\<close> whenever it is not \<open>undefined\<close>, also when it is an
  inherited member and no string; \<open>replace\<close> inserts the string form of what the replacer
  answers.
\<close>

definition renderTemplate :: "string \<Rightarrow> DataRow \<Rightarrow> string" where
  "renderTemplate template row =
     replaceTokens
       (\<lambda>rawKey.
          let key = trim rawKey in
          case rowGet row key of
            Some direct \<Rightarrow> toStr direct
          | None \<Rightarrow> (case loweredMap row (toLowerCase key) of
                       Some fallback \<Rightarrow> fallback
                     | None \<Rightarrow> []))
       template"

text \<open>
  Whether the pattern matches anywhere in a string (\<open>pattern.test(s)\<close>): these are the
  strings in which \<open>replace\<close> finds a token.
\<close>

fun hasToken :: "string \<Rightarrow> bool" where
  "hasToken [] = False"
| "hasToken (c # cs) = (matchToken (c # cs) \<noteq> None \<or> hasToken cs)"

text \<open>Whether the pattern matches at one of the first \<open>n\<close> positions of a string.\<close>

fun tokenBefore :: "nat \<Rightarrow> string \<Rightarrow> bool" where
  "tokenBefore 0 s = False"
| "tokenBefore (Suc n) [] = False"
| "tokenBefore (Suc n) (c # cs) = (matchToken (c # cs) \<noteq> None \<or> tokenBefore n cs)"

subsection \<open>applyFilter\<close>

text \<open>
  \<open>row[filter.column] ?? ""\<close> replaces only \<open>undefined\<close>. A target value that is no
  string has no method \<open>toLowerCase\<close>: the call throws a \<open>TypeError\<close>, before the
  \<open>switch\<close> is reached. \<open>Inl\<close> is the exception.
\<close>

definition applyFilter :: "DataRow \<Rightarrow> AgentFilter option \<Rightarrow> jsError + bool" where
  "applyFilter row flt =
     (case flt of
        None \<Rightarrow> Inr True
      | Some f \<Rightarrow>
          if \<not> truthy (f_column f) \<or> \<not> truthy (f_value f) then Inr True
          else
            (let targetValue = (case rowGet row (f_column f) of
                                  Some v \<Rightarrow> v | None \<Rightarrow> JsString []);
                 needle = toLowerCase (f_value f)
             in case targetValue of
                  JsString s \<Rightarrow>
                    (let haystack = toLowerCase s
                     in Inr (if f_operator f = ''equals'' then haystack = needle
                             else if f_operator f = ''contains''
                               then includes_str haystack needle
                             else if f_operator f = ''startsWith''
                               then startsWith haystack needle
                             else if f_operator f = ''endsWith''
                               then endsWith haystack needle
                             else True))
                | JsFunction name \<Rightarrow> Inl TypeError
                | JsObject \<Rightarrow> Inl TypeError))"

subsection \<open>Array methods with a callback that may throw\<close>

text \<open>
  \<open>filter\<close>, \<open>map\<close> and \<open>forEach\<close> call the callback on the elements in order; an
  exception of the callback ends the method and is the method's exception.
\<close>

fun filterE :: "('a \<Rightarrow> jsError + bool) \<Rightarrow> 'a list \<Rightarrow> jsError + 'a list" where
  "filterE p [] = Inr []"
| "filterE p (x # xs) =
     (case p x of
        Inl err \<Rightarrow> Inl err
      | Inr keep \<Rightarrow>
          (case filterE p xs of
             Inl err \<Rightarrow> Inl err
           | Inr kept \<Rightarrow> Inr (if keep then x # kept else kept)))"

fun mapE :: "('a \<Rightarrow> jsError + 'b) \<Rightarrow> 'a list \<Rightarrow> jsError + 'b list" where
  "mapE f [] = Inr []"
| "mapE f (x # xs) =
     (case f x of
        Inl err \<Rightarrow> Inl err
      | Inr y \<Rightarrow>
          (case mapE f xs of
             Inl err \<Rightarrow> Inl err
           | Inr ys \<Rightarrow> Inr (y # ys)))"

fun forEachE :: "('a \<Rightarrow> 's \<Rightarrow> jsError + 's) \<Rightarrow> 'a list \<Rightarrow> 's \<Rightarrow> jsError + 's" where
  "forEachE f [] state = Inr state"
| "forEachE f (x # xs) state =
     (case f x state of
        Inl err \<Rightarrow> Inl err
      | Inr state' \<Rightarrow> forEachE f xs state')"

subsection \<open>totalRecipients\<close>

text \<open>
  A JavaScript \<open>Set<string>\<close> as the list of its members in insertion order:
  \<open>add\<close> ignores a member that is already there, \<open>size\<close> is the length.
\<close>

definition setAdd :: "string \<Rightarrow> string list \<Rightarrow> string list" where
  "setAdd x members = (if x \<in> set members then members else members @ [x])"

definition addRowEmail ::
  "string \<Rightarrow> AgentDefinition \<Rightarrow> DataRow \<Rightarrow> string list \<Rightarrow> jsError + string list" where
  \<comment> \<open>the body of the inner \<open>forEach\<close>, for one agent and one row\<close>
  "addRowEmail emailColumn agent row emailSet =
     (case applyFilter row (a_filter agent) of
        Inl err \<Rightarrow> Inl err
      | Inr matches \<Rightarrow>
          if \<not> matches then Inr emailSet
          else (let email = normalizeValue (rowGet row emailColumn)
                in Inr (if truthy email then setAdd email emailSet else emailSet)))"

definition totalRecipients ::
  "UploadResult option \<Rightarrow> string \<Rightarrow> AgentDefinition list \<Rightarrow> jsError + nat" where
  "totalRecipients uploadResult emailColumn agents =
     (case uploadResult of
        None \<Rightarrow> Inr 0
      | Some u \<Rightarrow>
          if \<not> truthy emailColumn then Inr 0
          else
            (case forEachE
                    (\<lambda>agent emailSet. forEachE (addRowEmail emailColumn agent) (u_rows u) emailSet)
                    agents [] of
               Inl err \<Rightarrow> Inl err
             | Inr emailSet \<Rightarrow> Inr (length emailSet)))"

subsection \<open>handleSend\<close>

text \<open>
  The recipient and agent objects that \<open>handleSend\<close> builds are the ones the request
  schema of the route describes; an optional field is an \<open>option\<close>. \<open>JSON.stringify\<close>
  drops a field that is \<open>undefined\<close> or a function and writes \<open>Object.prototype\<close> as
  an empty object, so the \<open>name\<close> of a recipient reaches the route as a string, as an
  object, or not at all.
\<close>

datatype NameField =
    NameString string
  | NameObject

definition jsonName :: "jsValue option \<Rightarrow> NameField option" where
  "jsonName v =
     (case v of
        None \<Rightarrow> None
      | Some (JsString s) \<Rightarrow> Some (NameString s)
      | Some (JsFunction name) \<Rightarrow> None
      | Some JsObject \<Rightarrow> Some NameObject)"

record Recipient =
  r_to :: string
  r_subject :: string
  r_body :: string
  r_variables :: "DataRow option"
  r_name :: "NameField option"

record PreparedAgent =
  p_id :: string
  p_name :: string
  p_recipients :: "Recipient list"

record FromField =
  from_email :: "string option"
  from_name :: "string option"

record SendRequest =
  req_agents :: "PreparedAgent list"
  req_from :: "FromField option"

record SendResult =
  sr_ok :: bool
  sr_message :: string

definition prepareRecipient ::
  "string \<Rightarrow> string \<Rightarrow> AgentDefinition \<Rightarrow> DataRow \<Rightarrow> Recipient option" where
  "prepareRecipient emailColumn nameColumn agent row =
     (let email = normalizeValue (rowGet row emailColumn)
      in if \<not> truthy email then None
         else Some \<lparr>r_to = email,
                    r_subject = renderTemplate (a_subjectTemplate agent) row,
                    r_body = renderTemplate (a_bodyTemplate agent) row,
                    r_variables = Some row,
                    r_name = (if truthy nameColumn then jsonName (rowGet row nameColumn)
                              else None)\<rparr>)"

definition resolveRecipients ::
  "DataRow list \<Rightarrow> string \<Rightarrow> string \<Rightarrow> AgentDefinition \<Rightarrow> jsError + Recipient list" where
  "resolveRecipients rows emailColumn nameColumn agent =
     (case filterE (\<lambda>row. applyFilter row (a_filter agent)) rows of
        Inl err \<Rightarrow> Inl err
      | Inr matching \<Rightarrow>
          Inr (map the
                 (filter (\<lambda>v. v \<noteq> None)
                    (map (prepareRecipient emailColumn nameColumn agent) matching))))"

definition prepareAgents ::
  "DataRow list \<Rightarrow> string \<Rightarrow> string \<Rightarrow> AgentDefinition list
     \<Rightarrow> jsError + PreparedAgent list" where
  "prepareAgents rows emailColumn nameColumn agents =
     (case mapE (\<lambda>agent.
                   case resolveRecipients rows emailColumn nameColumn agent of
                     Inl err \<Rightarrow> Inl err
                   | Inr recipients \<Rightarrow>
                       Inr \<lparr>p_id = a_id agent, p_name = a_name agent,
                            p_recipients = recipients\<rparr>)
             agents of
        Inl err \<Rightarrow> Inl err
      | Inr prepared \<Rightarrow> Inr (filter (\<lambda>agent. length (p_recipients agent) \<noteq> 0) prepared))"

text \<open>
  What \<open>handleSend\<close> does up to the request: nothing, a message for the operator, the
  request it posts, or an exception that leaves the function before the request.
\<close>

datatype handleSendStep =
    Nothing
  | Report SendResult
  | Fetch SendRequest
  | Throws jsError

definition handleSend ::
  "UploadResult option \<Rightarrow> string \<Rightarrow> string \<Rightarrow> AgentDefinition list \<Rightarrow> string \<Rightarrow> string
     \<Rightarrow> handleSendStep" where
  \<comment> \<open>up to the request that is posted to the route; what the route answers is below\<close>
  "handleSend uploadResult emailColumn nameColumn agents fromEmail fromName =
     (case uploadResult of
        None \<Rightarrow> Nothing
      | Some u \<Rightarrow>
          if \<not> truthy emailColumn then
            Report \<lparr>sr_ok = False,
                    sr_message = ''Please select which column contains email addresses.''\<rparr>
          else
            (case prepareAgents (u_rows u) emailColumn nameColumn agents of
               Inl err \<Rightarrow> Throws err
             | Inr preparedAgents \<Rightarrow>
                 if length preparedAgents = 0 then
                   Report \<lparr>sr_ok = False,
                           sr_message = ''No recipients were identified. Adjust your filters or verify the email column.''\<rparr>
                 else
                   Fetch \<lparr>req_agents = preparedAgents,
                          req_from = Some \<lparr>from_email = Some fromEmail,
                                            from_name = Some fromName\<rparr>\<rparr>))"

section \<open>The send route (src/app/api/send/route.ts)\<close>

subsection \<open>emailRequestSchema\<close>

text \<open>
  The schema is checked by the zod library, which is not part of the repository. Its
  test for \<open>z.string().email()\<close> is the parameter \<open>isEmail\<close> of everything below. An
  issue is a code (named as zod 3 names them) and the path of the offending value; all
  issues are collected, an array's own length check before the issues of its elements.
  The request is taken at the shape the schema's types describe, an optional field being
  an \<open>option\<close>; what is checked here are the constraints on values, and that a
  recipient's \<open>name\<close> is a string.
\<close>

datatype seg = Key string | Idx nat

type_synonym issue = "string \<times> seg list"

definition recipientIssues :: "(string \<Rightarrow> bool) \<Rightarrow> seg list \<Rightarrow> Recipient \<Rightarrow> issue list" where
  "recipientIssues isEmail path r =
     (if isEmail (r_to r) then [] else [(''invalid_string'', path @ [Key ''to''])]) @
     (if 1 \<le> length (r_subject r) then [] else [(''too_small'', path @ [Key ''subject''])]) @
     (if 1 \<le> length (r_body r) then [] else [(''too_small'', path @ [Key ''body''])]) @
     (case r_name r of
        Some NameObject \<Rightarrow> [(''invalid_type'', path @ [Key ''name''])]
      | _ \<Rightarrow> [])"

definition agentIssues :: "(string \<Rightarrow> bool) \<Rightarrow> seg list \<Rightarrow> PreparedAgent \<Rightarrow> issue list" where
  "agentIssues isEmail path agent =
     (if 1 \<le> length (p_recipients agent) then []
      else [(''too_small'', path @ [Key ''recipients''])]) @
     concat (map (\<lambda>(i, r). recipientIssues isEmail (path @ [Key ''recipients'', Idx i]) r)
               (enumerate 0 (p_recipients agent)))"

definition requestIssues :: "(string \<Rightarrow> bool) \<Rightarrow> SendRequest \<Rightarrow> issue list" where
  "requestIssues isEmail req =
     (if 1 \<le> length (req_agents req) then [] else [(''too_small'', [Key ''agents''])]) @
     concat (map (\<lambda>(i, agent). agentIssues isEmail [Key ''agents'', Idx i] agent)
               (enumerate 0 (req_agents req))) @
     (case req_from req of
        None \<Rightarrow> []
      | Some frm \<Rightarrow>
          (case from_email frm of
             None \<Rightarrow> []
           | Some e \<Rightarrow> if isEmail e then [] else [(''invalid_string'', [Key ''from'', Key ''email''])]))"

definition safeParse :: "(string \<Rightarrow> bool) \<Rightarrow> SendRequest \<Rightarrow> issue list + SendRequest" where
  "safeParse isEmail req =
     (let found = requestIssues isEmail req in if found = [] then Inr req else Inl found)"

subsection \<open>buildHtmlBody, resolveFromHeader, createTransport\<close>

definition replaceAll :: "char \<Rightarrow> string \<Rightarrow> string \<Rightarrow> string" where
  \<comment> \<open>\<open>s.replace(/c/g, repl)\<close> for a single character \<open>c\<close>\<close>
  "replaceAll c repl s = concat (map (\<lambda>x. if x = c then repl else [x]) s)"

definition buildHtmlBody :: "string \<Rightarrow> string" where
  "buildHtmlBody plainText =
     (let escaped = replaceAll CHR ''>'' ''&gt;''
                      (replaceAll CHR ''<'' ''&lt;''
                         (replaceAll CHR ''&'' ''&amp;'' plainText))
      in ''<div style=\"font-family: 'Segoe UI', Arial, sans-serif; font-size: 16px; line-height: 1.6; color: #0f172a;\">'' @
         [CHR 0x0A] @ replaceAll (CHR 0x0A) ''<br/>'' escaped @ [CHR 0x0A] @ ''</div>'')"

text \<open>The environment variables the route reads; \<open>None\<close> is an unset variable.\<close>

record Env =
  MAIL_FROM :: "string option"
  SMTP_FROM :: "string option"
  SMTP_USER :: "string option"
  MAIL_FROM_NAME :: "string option"
  SMTP_FROM_NAME :: "string option"
  SMTP_HOST :: "string option"

definition orElse :: "string option \<Rightarrow> string \<Rightarrow> string" where
  \<comment> \<open>\<open>a || b\<close>: \<open>a\<close> when it is a non-empty string, \<open>b\<close> otherwise\<close>
  "orElse a b = (case a of None \<Rightarrow> b | Some s \<Rightarrow> if truthy s then s else b)"

definition defaultEmail :: "Env \<Rightarrow> string" where
  "defaultEmail env = orElse (MAIL_FROM env) (orElse (SMTP_FROM env) (orElse (SMTP_USER env) []))"

definition defaultName :: "Env \<Rightarrow> string" where
  "defaultName env =
     orElse (MAIL_FROM_NAME env) (orElse (SMTP_FROM_NAME env) (orElse (MAIL_FROM env) []))"

definition resolveFromHeader :: "Env \<Rightarrow> FromField \<Rightarrow> string option" where
  "resolveFromHeader env frm =
     (let email = orElse (from_email frm) (defaultEmail env);
          name = orElse (from_name frm) (defaultName env)
      in if \<not> truthy email then None
         else Some (if truthy name then name @ '' <'' @ email @ ''>'' else email))"

record Mail =
  m_from :: string
  m_to :: string
  m_subject :: string
  m_text :: string
  m_html :: string
  m_headers :: "(string \<times> string) list"

text \<open>
  The transport is created by nodemailer, outside the repository. What \<open>sendMail\<close>
  answers is a parameter: whether the call succeeds, given the messages handed to the
  transport so far and the message itself. \<open>createTransport\<close> keeps its flag.
\<close>

type_synonym Transport = "Mail list \<Rightarrow> Mail \<Rightarrow> bool"

definition dryRunOf :: "Env \<Rightarrow> bool" where
  "dryRunOf env = (case SMTP_HOST env of None \<Rightarrow> True | Some host \<Rightarrow> \<not> truthy host)"

subsection \<open>POST\<close>

text \<open>
  What the route does to the outside: the messages handed to \<open>sendMail\<close>, in order,
  and the lines written to the console (a dry-run line carries agent name, address and
  subject; its preview comes from the transport and is left out).
\<close>

datatype ConsoleLine =
    DryRunInfo string string string
  | SendError string string

record World =
  attempts :: "Mail list"
  console :: "ConsoleLine list"

record Response =
  status :: nat
  ok :: bool
  message :: string
  issues :: "issue list option"

fun showNat :: "nat \<Rightarrow> string" where
  "showNat n = (if n < 10 then [''0123456789'' ! n]
                else showNat (n div 10) @ [''0123456789'' ! (n mod 10)])"

definition buildMail :: "string \<Rightarrow> PreparedAgent \<Rightarrow> Recipient \<Rightarrow> Mail" where
  "buildMail fromHeader agent recipient =
     \<lparr>m_from = fromHeader,
      m_to = (case r_name recipient of
                Some (NameString n) \<Rightarrow>
                  if truthy n then n @ '' <'' @ r_to recipient @ ''>'' else r_to recipient
              | Some NameObject \<Rightarrow> ''[object Object] <'' @ r_to recipient @ ''>''
              | None \<Rightarrow> r_to recipient),
      m_subject = r_subject recipient,
      m_text = r_body recipient,
      m_html = buildHtmlBody (r_body recipient),
      m_headers = (if truthy (p_name agent) then [(''X-Agent-Name'', p_name agent)] else [])\<rparr>"

text \<open>
  The inner loop over one agent's recipients. \<open>Inl\<close> is the early return of the
  \<open>catch\<close> block with the address of the recipient, \<open>Inr\<close> the final value of \<open>sent\<close>.
\<close>

fun sendRecipients ::
  "Transport \<Rightarrow> bool \<Rightarrow> string \<Rightarrow> PreparedAgent \<Rightarrow> Recipient list \<Rightarrow> nat \<Rightarrow> World
     \<Rightarrow> (string + nat) \<times> World" where
  "sendRecipients transport dryRun fromHeader agent [] sent w = (Inr sent, w)"
| "sendRecipients transport dryRun fromHeader agent (recipient # rest) sent w =
     (let mail = buildMail fromHeader agent recipient;
          w1 = w\<lparr>attempts := attempts w @ [mail]\<rparr>
      in if transport (attempts w) mail then
           sendRecipients transport dryRun fromHeader agent rest (sent + 1)
             (if dryRun
              then w1\<lparr>console := console w1 @
                       [DryRunInfo (p_name agent) (r_to recipient) (r_subject recipient)]\<rparr>
              else w1)
         else
           (Inl (r_to recipient),
            w1\<lparr>console := console w1 @ [SendError (p_id agent) (r_to recipient)]\<rparr>))"

text \<open>The outer loop over the agents, with the summary built so far.\<close>

fun dispatchAgents ::
  "Transport \<Rightarrow> bool \<Rightarrow> string \<Rightarrow> PreparedAgent list \<Rightarrow> (string \<times> nat) list \<Rightarrow> World
     \<Rightarrow> (string + (string \<times> nat) list) \<times> World" where
  "dispatchAgents transport dryRun fromHeader [] summary w = (Inr summary, w)"
| "dispatchAgents transport dryRun fromHeader (agent # rest) summary w =
     (case sendRecipients transport dryRun fromHeader agent (p_recipients agent) 0 w of
        (Inl address, w') \<Rightarrow> (Inl address, w')
      | (Inr sent, w') \<Rightarrow>
          dispatchAgents transport dryRun fromHeader rest (summary @ [(p_id agent, sent)]) w')"

text \<open>
  The handler. The body is \<open>None\<close> when it does not parse as JSON (or parses to a falsy
  value), otherwise a value of the shape the schema describes. The world starts empty.
\<close>

definition POST ::
  "(string \<Rightarrow> bool) \<Rightarrow> Env \<Rightarrow> Transport \<Rightarrow> SendRequest option \<Rightarrow> Response \<times> World" where
  "POST isEmail env transport body =
     (let w0 = \<lparr>attempts = [], console = []\<rparr> in
      case body of
        None \<Rightarrow>
          (\<lparr>status = 400, ok = False, message = ''Malformed JSON payload.'', issues = None\<rparr>, w0)
      | Some json \<Rightarrow>
          (case safeParse isEmail json of
             Inl found \<Rightarrow>
               (\<lparr>status = 422, ok = False, message = ''Invalid payload.'',
                 issues = Some found\<rparr>, w0)
           | Inr parsed \<Rightarrow>
               (case resolveFromHeader env
                       (case req_from parsed of
                          Some frm \<Rightarrow> frm
                        | None \<Rightarrow> \<lparr>from_email = None, from_name = None\<rparr>) of
                  None \<Rightarrow>
                    (\<lparr>status = 400, ok = False,
                      message = ''Missing sender identity. Supply from.email in the request or configure MAIL_FROM (and optional MAIL_FROM_NAME) environment variables.'',
                      issues = None\<rparr>, w0)
                | Some fromHeader \<Rightarrow>
                    (let dryRun = dryRunOf env in
                     case dispatchAgents transport dryRun fromHeader (req_agents parsed) [] w0 of
                       (Inl address, w) \<Rightarrow>
                         (\<lparr>status = 500, ok = False,
                           message = ''Failed to dispatch email to '' @ address @
                                     ''. Check server logs for details.'',
                           issues = None\<rparr>, w)
                     | (Inr summary, w) \<Rightarrow>
                         (let total = fold (\<lambda>item acc. acc + snd item) summary 0 in
                          if dryRun then
                            (\<lparr>status = 200, ok = True,
                              message = ''Dry run: generated '' @ showNat total @
                                        '' email payloads across '' @
                                        showNat (length summary) @
                                        '' agents. Configure SMTP_HOST to send live emails.'',
                              issues = None\<rparr>, w)
                          else
                            (\<lparr>status = 200, ok = True,
                              message = ''Dispatched '' @ showNat total @
                                        '' emails across '' @ showNat (length summary) @
                                        '' agents.'',
                              issues = None\<rparr>, w))))))"

subsection \<open>The dispatch order\<close>

text \<open>
  The agent-recipient pairs of a request in the order of the two loops, the message built
  for a pair, and the two loops written as one loop over the pairs: it answers the address
  of the first recipient the transport refuses, if any, and the messages handed to the
  transport. \<open>acceptsAll\<close> says that the transport accepts each message of a list in turn.
  These are used to state and prove the properties of the handler; that the nested loops
  agree with the single loop is proved below.
\<close>

definition agentRecipientPairs :: "PreparedAgent list \<Rightarrow> (PreparedAgent \<times> Recipient) list" where
  "agentRecipientPairs agents =
     concat (map (\<lambda>agent. map (Pair agent) (p_recipients agent)) agents)"

definition mailOf :: "string \<Rightarrow> PreparedAgent \<times> Recipient \<Rightarrow> Mail" where
  "mailOf fromHeader pair = buildMail fromHeader (fst pair) (snd pair)"

fun acceptsAll :: "Transport \<Rightarrow> Mail list \<Rightarrow> Mail list \<Rightarrow> bool" where
  "acceptsAll transport history [] = True"
| "acceptsAll transport history (m # ms) =
     (transport history m \<and> acceptsAll transport (history @ [m]) ms)"

fun sendFlat ::
  "Transport \<Rightarrow> string \<Rightarrow> (PreparedAgent \<times> Recipient) list \<Rightarrow> Mail list
     \<Rightarrow> string option \<times> Mail list" where
  "sendFlat transport fromHeader [] history = (None, history)"
| "sendFlat transport fromHeader (pair # rest) history =
     (if transport history (mailOf fromHeader pair)
      then sendFlat transport fromHeader rest (history @ [mailOf fromHeader pair])
      else (Some (r_to (snd pair)), history @ [mailOf fromHeader pair]))"

subsection \<open>Inputs of the worked examples\<close>

text \<open>
  The examples need a concrete email test in place of the library's; \<open>hasAtSign\<close> is
  a stand-in that, like any email syntax, refuses a string without an at sign.
\<close>

definition hasAtSign :: "string \<Rightarrow> bool" where
  "hasAtSign s = (CHR ''@'' \<in> set s)"

definition exampleEnv :: Env where
  "exampleEnv = \<lparr>MAIL_FROM = Some ''ops@example.com'', SMTP_FROM = None, SMTP_USER = None,
                 MAIL_FROM_NAME = None, SMTP_FROM_NAME = None, SMTP_HOST = None\<rparr>"

definition emptyEnv :: Env where
  "emptyEnv = \<lparr>MAIL_FROM = None, SMTP_FROM = None, SMTP_USER = None,
               MAIL_FROM_NAME = None, SMTP_FROM_NAME = None, SMTP_HOST = None\<rparr>"

definition exampleRecipient :: "string \<Rightarrow> Recipient" where
  "exampleRecipient address =
     \<lparr>r_to = address, r_subject = ''Hello'', r_body = ''Hi'', r_variables = None,
      r_name = None\<rparr>"

definition agentA :: PreparedAgent where
  "agentA = \<lparr>p_id = ''a'', p_name = ''A'',
             p_recipients = [exampleRecipient ''a1@example.com'',
                             exampleRecipient ''a2@example.com'']\<rparr>"

definition agentB :: PreparedAgent where
  "agentB = \<lparr>p_id = ''b'', p_name = ''B'',
             p_recipients = [exampleRecipient ''b1@example.com'',
                             exampleRecipient ''b2@example.com'']\<rparr>"

definition exampleRequest :: SendRequest where
  "exampleRequest = \<lparr>req_agents = [agentA, agentB], req_from = None\<rparr>"

definition failsOnSecond :: Transport where
  "failsOnSecond history mail = (length history \<noteq> 1)"

definition alwaysAccepts :: Transport where
  "alwaysAccepts history mail = True"

definition exampleUpload :: UploadResult where
  "exampleUpload =
     \<lparr>u_columns = [''Name'', ''Email''],
      u_rows = [[(''Name'', ''Ana''), (''Email'', ''ana@example.com'')]],
      u_fileName = ''contacts.csv''\<rparr>"

definition generalOutreach :: AgentDefinition where
  "generalOutreach =
     \<lparr>a_id = ''1'', a_name = ''General Outreach'', a_subjectTemplate = ''Hello {{Name}}'',
      a_bodyTemplate = ''Hi {{Name}}'', a_filter = None\<rparr>"

definition followUp :: AgentDefinition where
  "followUp =
     \<lparr>a_id = ''2'', a_name = ''Follow-up'', a_subjectTemplate = ''Again, {{ name }}'',
      a_bodyTemplate = ''Hi'',
      a_filter = Some \<lparr>f_column = ''Name'', f_operator = ''startsWith'', f_value = ''an''\<rparr>\<rparr>"

section \<open>Properties of the filter evaluator\<close>

lemma startsWith_prefix: "startsWith haystack needle = prefix needle haystack"
  unfolding startsWith_def
  by (metis append_take_drop_id prefix_def append_eq_conv_conj)

lemma endsWith_suffix: "endsWith haystack needle = suffix needle haystack"
proof
  assume "endsWith haystack needle"
  then have "drop (length haystack - length needle) haystack = needle"
    by (simp add: endsWith_def)
  then have "haystack = take (length haystack - length needle) haystack @ needle"
    by (metis append_take_drop_id)
  then show "suffix needle haystack"
    by (rule suffixI)
next
  assume "suffix needle haystack"
  then obtain zs where "haystack = zs @ needle"
    by (auto simp: suffix_def)
  then show "endsWith haystack needle"
    by (simp add: endsWith_def)
qed

lemma includes_sublist: "includes_str haystack needle = sublist needle haystack"
  by (induction haystack) (auto simp: startsWith_prefix sublist_Cons_right)

lemma rowGet_own: "map_of row key = Some v \<Longrightarrow> rowGet row key = Some (JsString v)"
  by (simp add: rowGet_def)

lemma rowGet_absent: "map_of row key = None \<Longrightarrow> rowGet row key = objectPrototype key"
  by (simp add: rowGet_def)

lemma objectPrototype_no_string: "objectPrototype key \<noteq> Some (JsString s)"
  by (simp add: objectPrototype_def)

text \<open>
  What \<open>applyFilter\<close> answers on every input. It answers true when the filter is
  absent or its column or value is empty. It throws when the row has no entry for the
  filter's column and the column is the name of an inherited member. On every other input
  it does what the filter evaluator is specified to do: true for an operator that is none
  of the four, and otherwise the operator applied to the lower-cased row value (the empty
  string for a missing column) and the lower-cased filter value, \<open>equals\<close> being
  equality, \<open>contains\<close> \<^const>\<open>sublist\<close>, \<open>startsWith\<close> \<^const>\<open>prefix\<close> and
  \<open>endsWith\<close> \<^const>\<open>suffix\<close>.
\<close>

lemma applyFilter_semantics:
  "applyFilter row flt =
     (case flt of
        None \<Rightarrow> Inr True
      | Some f \<Rightarrow>
          if f_column f = [] \<or> f_value f = [] then Inr True
          else if map_of row (f_column f) = None \<and> objectPrototype (f_column f) \<noteq> None
          then Inl TypeError
          else Inr
            (if f_operator f \<notin> {''equals'', ''contains'', ''startsWith'', ''endsWith''}
             then True
             else
               (let haystack = toLowerCase (case map_of row (f_column f) of
                                              None \<Rightarrow> [] | Some v \<Rightarrow> v);
                    needle = toLowerCase (f_value f)
                in if f_operator f = ''equals'' then haystack = needle
                   else if f_operator f = ''contains'' then sublist needle haystack
                   else if f_operator f = ''startsWith'' then prefix needle haystack
                   else suffix needle haystack)))"
proof (cases flt)
  case None
  then show ?thesis by (simp add: applyFilter_def)
next
  case (Some f)
  show ?thesis
  proof (cases "map_of row (f_column f)")
    case own: (Some v)
    with Some show ?thesis
      by (auto simp: applyFilter_def truthy_def Let_def rowGet_own startsWith_prefix
          endsWith_suffix includes_sublist)
  next
    case absent: None
    show ?thesis
    proof (cases "objectPrototype (f_column f)")
      case None
      with Some absent show ?thesis
        by (auto simp: applyFilter_def truthy_def Let_def rowGet_absent startsWith_prefix
            endsWith_suffix includes_sublist)
    next
      case inherited: (Some member)
      show ?thesis
      proof (cases member)
        case (JsString s)
        with inherited show ?thesis
          using objectPrototype_no_string[of "f_column f" s] by simp
      next
        case (JsFunction name)
        with Some absent inherited show ?thesis
          by (simp add: applyFilter_def truthy_def Let_def rowGet_absent)
      next
        case JsObject
        with Some absent inherited show ?thesis
          by (simp add: applyFilter_def truthy_def Let_def rowGet_absent)
      qed
    qed
  qed
qed

lemma applyFilter_examples:
  "applyFilter [(''Company'', ''Acme Corp'')]
     (Some \<lparr>f_column = ''Company'', f_operator = ''contains'', f_value = ''acme''\<rparr>) = Inr True \<and>
   applyFilter [(''Company'', ''Acme Corp'')]
     (Some \<lparr>f_column = ''Company'', f_operator = ''equals'', f_value = ''Acme Corp''\<rparr>) = Inr True \<and>
   applyFilter [(''Company'', ''Acme Corp'')]
     (Some \<lparr>f_column = ''Company'', f_operator = ''startsWith'', f_value = ''Beta''\<rparr>) = Inr False \<and>
   applyFilter [(''Company'', ''Acme Corp'')]
     (Some \<lparr>f_column = ''Region'', f_operator = ''endsWith'', f_value = ''west''\<rparr>) = Inr False \<and>
   applyFilter [(''Company'', ''Acme Corp'')]
     (Some \<lparr>f_column = ''Company'', f_operator = ''matches'', f_value = ''zzz''\<rparr>) = Inr True"
  unfolding applyFilter_semantics by code_simp



section \<open>Properties of the template renderer\<close>

lemma trim_dropWhile: "trim (dropWhile isSpace s) = trim s"
  by (simp add: trim_def)

lemma trim_all_space:
  assumes "\<forall>c\<in>set s. isSpace c"
  shows "trim s = []"
proof -
  have "dropWhile isSpace s = []"
    using assms by simp
  then show ?thesis
    unfolding trim_def by (simp only: rev.simps dropWhile.simps)
qed

lemma trim_captured:
  assumes "inner \<noteq> []"
  shows "trim (if dropWhile isSpace inner = [] then [last inner] else dropWhile isSpace inner)
         = trim inner"
proof (cases "dropWhile isSpace inner = []")
  case True
  then have all: "\<forall>c\<in>set inner. isSpace c"
    by simp
  with assms have "isSpace (last inner)"
    by simp
  then have "trim [last inner] = []"
    by (simp add: trim_def)
  moreover have "trim inner = []"
    using all by (rule trim_all_space)
  moreover have "(if dropWhile isSpace inner = [] then [last inner] else dropWhile isSpace inner)
             = [last inner]"
    using True by (simp only: refl if_True)
  ultimately show ?thesis
    by simp
next
  case False
  then have "(if dropWhile isSpace inner = [] then [last inner] else dropWhile isSpace inner)
             = dropWhile isSpace inner"
    by (simp only: if_False)
  then show ?thesis
    by (simp only: trim_dropWhile)
qed

lemma matchToken_token:
  assumes "content \<noteq> []" and "CHR ''}'' \<notin> set content"
  shows "\<exists>rawKey. matchToken (''{{'' @ content @ ''}}'' @ post) = Some (rawKey, post) \<and>
                  trim rawKey = trim content"
proof -
  let ?raw = "if dropWhile isSpace content = [] then [last content]
              else dropWhile isSpace content"
  have ne: "\<And>x. x \<in> set content \<Longrightarrow> x \<noteq> CHR ''}''"
    using assms(2) by auto
  have tw: "takeWhile (\<lambda>c. c \<noteq> CHR ''}'') (content @ CHR ''}'' # CHR ''}'' # post) = content"
    by (simp add: takeWhile_append2[OF ne])
  have dw: "dropWhile (\<lambda>c. c \<noteq> CHR ''}'') (content @ CHR ''}'' # CHR ''}'' # post)
            = CHR ''}'' # CHR ''}'' # post"
    by (simp add: dropWhile_append2[OF ne])
  have "matchToken (''{{'' @ content @ ''}}'' @ post) = Some (?raw, post)"
    using assms(1) by (simp add: matchToken_def tw dw Let_def)
  moreover have "trim ?raw = trim content"
    using assms(1) by (rule trim_captured)
  ultimately show ?thesis
    by blast
qed

lemma matchToken_other: "c \<noteq> CHR ''{'' \<Longrightarrow> matchToken (c # cs) = None"
  by (simp add: matchToken_def split: list.split)

lemma replaceTokens_literal:
  "\<not> tokenBefore (length pre) (pre @ s) \<Longrightarrow>
   replaceTokens replacer (pre @ s) = pre @ replaceTokens replacer s"
proof (induction pre)
  case Nil
  then show ?case by simp
next
  case (Cons c pre)
  from Cons.prems have "matchToken (c # pre @ s) = None"
    by (cases "matchToken (c # pre @ s)") auto
  moreover from Cons.prems have "\<not> tokenBefore (length pre) (pre @ s)"
    by simp
  ultimately show ?case
    using Cons.IH by simp
qed

lemma no_brace_no_token: "CHR ''{'' \<notin> set pre \<Longrightarrow> \<not> tokenBefore (length pre) (pre @ s)"
proof (induction pre)
  case Nil
  then show ?case by simp
next
  case (Cons c pre)
  then have "c \<noteq> CHR ''{''"
    by auto
  then have "matchToken (c # pre @ s) = None"
    by (rule matchToken_other)
  with Cons show ?case
    by simp
qed

lemma fold_lowered:
  "fold (\<lambda>(key, v) m. m(f key \<mapsto> v)) row m k =
     (case filter (\<lambda>(key, v). f key = k) row of [] \<Rightarrow> m k | hits \<Rightarrow> Some (snd (last hits)))"
proof (induction row arbitrary: m)
  case Nil
  then show ?case by simp
next
  case (Cons e row)
  obtain key v where e: "e = (key, v)" by (cases e)
  have "fold (\<lambda>(key, v) m. m(f key \<mapsto> v)) (e # row) m k =
        fold (\<lambda>(key, v) m. m(f key \<mapsto> v)) row (m(f key \<mapsto> v)) k"
    by (simp add: e)
  also have "\<dots> = (case filter (\<lambda>(key, v). f key = k) row of
                     [] \<Rightarrow> (m(f key \<mapsto> v)) k | hits \<Rightarrow> Some (snd (last hits)))"
    by (rule Cons)
  also have "\<dots> = (case filter (\<lambda>(key, v). f key = k) (e # row) of
                     [] \<Rightarrow> m k | hits \<Rightarrow> Some (snd (last hits)))"
    by (cases "filter (\<lambda>(key, v). f key = k) row"; cases "f key = k") (auto simp: e)
  finally show ?case .
qed

lemma loweredMap_last:
  "loweredMap row k =
     (case filter (\<lambda>(key, v). toLowerCase (trim key) = k) row of
        [] \<Rightarrow> None | hits \<Rightarrow> Some (snd (last hits)))"
  unfolding loweredMap_def by (simp add: fold_lowered)

text \<open>
  What \<open>renderTemplate\<close> does with a token. A token is what the pattern recognises: two
  opening braces, a non-empty content without a closing brace, two closing braces. For
  the leftmost token of a template (no match starts in the text \<open>pre\<close> before it) the
  output is \<open>pre\<close> unchanged, then the value for the key, then the rendering of the
  rest. The key is the content with surrounding white space trimmed. The value is the
  row's entry under exactly that key when there is one. Without such an entry it is the
  string form of the inherited member when the key names one. Otherwise it is the value
  of a row entry whose trimmed, lower-cased key equals the lower-cased key (the last such
  entry of the row when several collide), and the empty string when there is none.
\<close>

lemma renderTemplate_token:
  assumes "content \<noteq> []" and "CHR ''}'' \<notin> set content"
    and "\<not> tokenBefore (length pre) (pre @ ''{{'' @ content @ ''}}'' @ post)"
  shows "renderTemplate (pre @ ''{{'' @ content @ ''}}'' @ post) row =
           pre @
           (case map_of row (trim content) of
              Some v \<Rightarrow> v
            | None \<Rightarrow>
                (case objectPrototype (trim content) of
                   Some member \<Rightarrow> toStr member
                 | None \<Rightarrow>
                     (case filter (\<lambda>(k, v). toLowerCase (trim k) = toLowerCase (trim content))
                             row of
                        [] \<Rightarrow> []
                      | hits \<Rightarrow> snd (last hits)))) @
           renderTemplate post row"
proof -
  obtain rawKey where m: "matchToken (''{{'' @ content @ ''}}'' @ post) = Some (rawKey, post)"
    and t: "trim rawKey = trim content"
    using matchToken_token[OF assms(1,2)] by blast
  from m have m': "matchToken (CHR ''{'' # CHR ''{'' # content @ CHR ''}'' # CHR ''}'' # post) =
                   Some (rawKey, post)"
    by simp
  show ?thesis
    unfolding renderTemplate_def
    by (simp add: replaceTokens_literal[OF assms(3), simplified] m' t loweredMap_last Let_def
        rowGet_def toStr_def split: option.split list.split)
qed

lemma renderTemplate_examples:
  "renderTemplate ''Hi {{first name}}'' [(''First Name'', ''Ana'')] = ''Hi Ana'' \<and>
   renderTemplate ''{x} {{ Name }}/{{Missing}}.'' [(''Other'', ''x''), (''Name'', ''Bo'')] =
     ''{x} Bo/.''"
  by code_simp

text \<open>
  C3. A token whose key is no column of the row is specified to be replaced by the value
  under the case-insensitive key, and by the empty string when there is none.
  \<open>renderTemplate\<close> does not do so for the key \<open>constructor\<close>: the exact-key read
  answers the inherited member, and its string form is inserted, whether the row has no
  matching column at all or has the column \<open>Constructor\<close>.
\<close>

theorem renderTemplate_inherited_member:
  "renderTemplate ''Hi {{constructor}}'' [(''Name'', ''Ana'')] =
     ''Hi function Object() { [native code] }'' \<and>
   renderTemplate ''Hi {{constructor}}'' [(''Constructor'', ''Ana'')] =
     ''Hi function Object() { [native code] }'' \<and>
   renderTemplate ''Hi {{name}}'' [(''Name'', ''Ana'')] = ''Hi Ana'' \<and>
   renderTemplate ''Hi {{missing}}'' [(''Name'', ''Ana'')] = ''Hi ''"
  by code_simp

lemma replaceTokens_no_token: "\<not> hasToken s \<Longrightarrow> replaceTokens replacer s = s"
proof (induction s)
  case Nil
  then show ?case by simp
next
  case (Cons c s)
  from Cons.prems have "matchToken (c # s) = None"
    by (cases "matchToken (c # s)") auto
  moreover from Cons.prems have "\<not> hasToken s"
    by simp
  ultimately show ?case
    using Cons.IH by simp
qed

text \<open>
  C4. The renderer is a function of the template and the row alone, so two renderings of
  the same template against the same row are equal. A template in which the pattern
  matches nowhere is returned unchanged. An output in which the pattern matches nowhere
  (no token is left in it to resolve) is unchanged by a second rendering against the
  same row.
\<close>

theorem renderTemplate_idempotent:
  "(\<forall>template' row'. template' = template \<and> row' = row \<longrightarrow>
       renderTemplate template' row' = renderTemplate template row) \<and>
   (\<not> hasToken template \<longrightarrow> renderTemplate template row = template) \<and>
   (\<not> hasToken (renderTemplate template row) \<longrightarrow>
       renderTemplate (renderTemplate template row) row = renderTemplate template row)"
  by (simp add: renderTemplate_def replaceTokens_no_token)

theorem renderTemplate_idempotent_witness:
  "\<not> hasToken ''Hi {there}'' \<and>
   renderTemplate ''Hi {there}'' [(''Name'', ''Ana'')] = ''Hi {there}'' \<and>
   \<not> hasToken (renderTemplate ''Hi {{Name}}'' [(''Name'', ''Ana'')]) \<and>
   renderTemplate (renderTemplate ''Hi {{Name}}'' [(''Name'', ''Ana'')]) [(''Name'', ''Ana'')] =
     renderTemplate ''Hi {{Name}}'' [(''Name'', ''Ana'')]"
proof -
  have h1: "\<not> hasToken ''Hi {there}''"
    by code_simp
  have h2: "\<not> hasToken (renderTemplate ''Hi {{Name}}'' [(''Name'', ''Ana'')])"
    by code_simp
  show ?thesis
    using h1 h2
      renderTemplate_idempotent[of "''Hi {there}''" "[(''Name'', ''Ana'')]"]
      renderTemplate_idempotent[of "''Hi {{Name}}''" "[(''Name'', ''Ana'')]"]
    by blast
qed

text \<open>
  The side condition of the last part is needed: a row value is inserted as it is, and
  when it holds a token itself, a second rendering resolves that token.
\<close>

lemma renderTemplate_row_value_with_token:
  "renderTemplate ''{{A}}'' [(''A'', ''{{B}}''), (''B'', ''x'')] = ''{{B}}'' \<and>
   renderTemplate ''{{B}}'' [(''A'', ''{{B}}''), (''B'', ''x'')] = ''x''"
  by code_simp

text \<open>
  Braces that the pattern does not recognise are ordinary text: an empty pair, or a
  content broken by a single closing brace.
\<close>

lemma renderTemplate_not_a_token:
  "renderTemplate ''{{}}|{{a}b}}'' [(''a'', ''1'')] = ''{{}}|{{a}b}}''"
  by code_simp

section \<open>Properties of recipient resolution and of the distinct count\<close>

lemma jsError_unique: "(err :: jsError) = TypeError"
  by (cases err) simp

lemma prepareRecipient_Some:
  "prepareRecipient emailColumn nameColumn agent row = Some r \<Longrightarrow>
   r_to r = normalizeValue (rowGet row emailColumn) \<and> r_to r \<noteq> []"
  by (auto simp: prepareRecipient_def Let_def truthy_def split: if_splits)

lemma prepareRecipient_None:
  "prepareRecipient emailColumn nameColumn agent row = None \<longleftrightarrow>
   normalizeValue (rowGet row emailColumn) = []"
  by (simp add: prepareRecipient_def Let_def truthy_def)

lemma resolveRecipients_Nil: "resolveRecipients [] emailColumn nameColumn agent = Inr []"
  by (simp add: resolveRecipients_def)

lemma resolveRecipients_Cons:
  "resolveRecipients (row # rows) emailColumn nameColumn agent =
     (case applyFilter row (a_filter agent) of
        Inl err \<Rightarrow> Inl err
      | Inr matches \<Rightarrow>
          (case resolveRecipients rows emailColumn nameColumn agent of
             Inl err \<Rightarrow> Inl err
           | Inr rest \<Rightarrow>
               Inr ((if matches
                     then (case prepareRecipient emailColumn nameColumn agent row of
                             Some r \<Rightarrow> [r] | None \<Rightarrow> [])
                     else []) @ rest)))"
  by (simp add: resolveRecipients_def split: sum.split option.split)

lemma resolveRecipients_throws:
  "(resolveRecipients rows emailColumn nameColumn agent = Inl TypeError) =
     (\<exists>row \<in> set rows. applyFilter row (a_filter agent) = Inl TypeError)"
proof (induction rows)
  case Nil
  then show ?case by (simp add: resolveRecipients_Nil)
next
  case (Cons row rows)
  show ?case
  proof (cases "applyFilter row (a_filter agent)")
    case (Inl err)
    then show ?thesis
      using jsError_unique[of err] by (simp add: resolveRecipients_Cons)
  next
    case (Inr matches)
    show ?thesis
    proof (cases "resolveRecipients rows emailColumn nameColumn agent")
      case rest_throws: (Inl err)
      with Inr Cons.IH show ?thesis
        using jsError_unique[of err] by (simp add: resolveRecipients_Cons)
    next
      case rest_ok: (Inr rest)
      with Inr Cons.IH show ?thesis
        by (simp add: resolveRecipients_Cons)
    qed
  qed
qed

lemma resolveRecipients_cases:
  obtains "resolveRecipients rows emailColumn nameColumn agent = Inl TypeError"
  | rs where "resolveRecipients rows emailColumn nameColumn agent = Inr rs"
proof (cases "resolveRecipients rows emailColumn nameColumn agent")
  case (Inl err)
  then show ?thesis
    using jsError_unique[of err] that(1) by simp
next
  case (Inr rs)
  then show ?thesis
    using that(2) by simp
qed

lemma resolveRecipients_member:
  "resolveRecipients rows emailColumn nameColumn agent = Inr rs \<Longrightarrow>
   r \<in> set rs \<longleftrightarrow>
     (\<exists>row \<in> set rows. applyFilter row (a_filter agent) = Inr True \<and>
        prepareRecipient emailColumn nameColumn agent row = Some r)"
proof (induction rows arbitrary: rs)
  case Nil
  then show ?case by (simp add: resolveRecipients_Nil)
next
  case (Cons row rows)
  from Cons.prems obtain matches rest
    where m: "applyFilter row (a_filter agent) = Inr matches"
      and rest: "resolveRecipients rows emailColumn nameColumn agent = Inr rest"
      and rs: "rs = (if matches
                     then (case prepareRecipient emailColumn nameColumn agent row of
                             Some r \<Rightarrow> [r] | None \<Rightarrow> [])
                     else []) @ rest"
    by (auto simp: resolveRecipients_Cons split: sum.splits)
  note IH = Cons.IH[OF rest]
  show ?case
  proof (cases matches)
    case False
    with m rs IH show ?thesis
      by simp
  next
    case True
    show ?thesis
    proof (cases "prepareRecipient emailColumn nameColumn agent row")
      case None
      with True m rs IH show ?thesis
        by simp
    next
      case (Some r')
      with True m rs IH show ?thesis
        by auto
    qed
  qed
qed

lemma resolveRecipients_append:
  "resolveRecipients (xs @ ys) emailColumn nameColumn agent =
     (case resolveRecipients xs emailColumn nameColumn agent of
        Inl err \<Rightarrow> Inl err
      | Inr first \<Rightarrow>
          (case resolveRecipients ys emailColumn nameColumn agent of
             Inl err \<Rightarrow> Inl err
           | Inr second \<Rightarrow> Inr (first @ second)))"
proof (induction xs)
  case Nil
  then show ?case
    by (simp add: resolveRecipients_Nil split: sum.split)
next
  case (Cons x xs)
  show ?case
  proof (cases "applyFilter x (a_filter agent)")
    case (Inl err)
    then show ?thesis
      using resolveRecipients_Cons[of x "xs @ ys" emailColumn nameColumn agent]
        resolveRecipients_Cons[of x xs emailColumn nameColumn agent]
      by simp
  next
    case (Inr matches)
    then show ?thesis
      using resolveRecipients_Cons[of x "xs @ ys" emailColumn nameColumn agent]
        resolveRecipients_Cons[of x xs emailColumn nameColumn agent] Cons.IH
      by (cases "resolveRecipients xs emailColumn nameColumn agent";
          cases "resolveRecipients ys emailColumn nameColumn agent")
        (simp_all add: jsError_unique)
  qed
qed

lemma resolveRecipients_skip:
  assumes "normalizeValue (rowGet row emailColumn) = []"
    and "applyFilter row (a_filter agent) \<noteq> Inl TypeError"
  shows "resolveRecipients [row] emailColumn nameColumn agent = Inr []"
proof -
  from assms(2) obtain matches where "applyFilter row (a_filter agent) = Inr matches"
    using jsError_unique by (cases "applyFilter row (a_filter agent)") auto
  moreover from assms(1) have "prepareRecipient emailColumn nameColumn agent row = None"
    by (simp add: prepareRecipient_None)
  ultimately show ?thesis
    by (simp add: resolveRecipients_Cons resolveRecipients_Nil)
qed

lemma mapE_member:
  "mapE f xs = Inr ys \<Longrightarrow> y \<in> set ys \<Longrightarrow> \<exists>x \<in> set xs. f x = Inr y"
proof (induction xs arbitrary: ys)
  case Nil
  then show ?case by simp
next
  case (Cons x xs)
  from Cons.prems(1) obtain z zs where "f x = Inr z" "mapE f xs = Inr zs" "ys = z # zs"
    by (auto split: sum.splits)
  with Cons.IH[of zs] Cons.prems(2) show ?case
    by auto
qed

lemma prepareAgents_member:
  assumes "prepareAgents rows emailColumn nameColumn agents = Inr prepared"
    and "pa \<in> set prepared"
  shows "\<exists>agent \<in> set agents.
           resolveRecipients rows emailColumn nameColumn agent = Inr (p_recipients pa)"
proof -
  let ?f = "\<lambda>agent.
              case resolveRecipients rows emailColumn nameColumn agent of
                Inl err \<Rightarrow> Inl err
              | Inr recipients \<Rightarrow>
                  Inr \<lparr>p_id = a_id agent, p_name = a_name agent, p_recipients = recipients\<rparr>"
  from assms(1) obtain allPrepared where all: "mapE ?f agents = Inr allPrepared"
    and "prepared = filter (\<lambda>agent. length (p_recipients agent) \<noteq> 0) allPrepared"
    by (auto simp: prepareAgents_def split: sum.splits)
  with assms(2) have "pa \<in> set allPrepared"
    by simp
  with all obtain agent where "agent \<in> set agents" and "?f agent = Inr pa"
    using mapE_member[of ?f agents allPrepared pa] by blast
  then show ?thesis
    by (auto split: sum.splits)
qed

text \<open>
  C6. No recipient that \<open>handleSend\<close> resolves has an empty \<open>to\<close>: neither in the list
  resolved for one agent nor in any agent of the prepared request, whatever the agent's
  filter. A row whose value in the email column is empty after trimming (or missing)
  contributes nothing: when the agent's filter can be evaluated on the row, resolving
  with the row gives the same result as resolving without it, and when the filter throws
  on the row, the resolution throws and there is no recipient at all.
\<close>

theorem empty_email_excluded:
  "(\<forall>rs. resolveRecipients rows emailColumn nameColumn agent = Inr rs \<longrightarrow>
      (\<forall>r \<in> set rs. r_to r \<noteq> [])) \<and>
   (\<forall>prepared. prepareAgents rows emailColumn nameColumn agents = Inr prepared \<longrightarrow>
      (\<forall>pa \<in> set prepared. \<forall>r \<in> set (p_recipients pa). r_to r \<noteq> [])) \<and>
   (normalizeValue (rowGet row emailColumn) = [] \<and>
    applyFilter row (a_filter agent) \<noteq> Inl TypeError \<longrightarrow>
      resolveRecipients (before @ row # after) emailColumn nameColumn agent =
      resolveRecipients (before @ after) emailColumn nameColumn agent) \<and>
   (applyFilter row (a_filter agent) = Inl TypeError \<longrightarrow>
      resolveRecipients (before @ row # after) emailColumn nameColumn agent = Inl TypeError)"
proof (intro conjI)
  show a: "\<forall>rs. resolveRecipients rows emailColumn nameColumn agent = Inr rs \<longrightarrow>
      (\<forall>r \<in> set rs. r_to r \<noteq> [])" for agent
    by (auto simp: resolveRecipients_member dest: prepareRecipient_Some)
  show "\<forall>prepared. prepareAgents rows emailColumn nameColumn agents = Inr prepared \<longrightarrow>
      (\<forall>pa \<in> set prepared. \<forall>r \<in> set (p_recipients pa). r_to r \<noteq> [])"
    using a prepareAgents_member[of rows emailColumn nameColumn agents] by blast
  show "normalizeValue (rowGet row emailColumn) = [] \<and>
    applyFilter row (a_filter agent) \<noteq> Inl TypeError \<longrightarrow>
      resolveRecipients (before @ row # after) emailColumn nameColumn agent =
      resolveRecipients (before @ after) emailColumn nameColumn agent"
  proof
    assume h: "normalizeValue (rowGet row emailColumn) = [] \<and>
               applyFilter row (a_filter agent) \<noteq> Inl TypeError"
    then have skip: "resolveRecipients [row] emailColumn nameColumn agent = Inr []"
      by (simp add: resolveRecipients_skip)
    have "resolveRecipients (before @ [row] @ after) emailColumn nameColumn agent =
          resolveRecipients (before @ after) emailColumn nameColumn agent"
      by (simp only: resolveRecipients_append[of before] resolveRecipients_append[of "[row]"]
          skip sum.case append_Nil)
        (simp split: sum.split)
    then show "resolveRecipients (before @ row # after) emailColumn nameColumn agent =
               resolveRecipients (before @ after) emailColumn nameColumn agent"
      by simp
  qed
  show "applyFilter row (a_filter agent) = Inl TypeError \<longrightarrow>
      resolveRecipients (before @ row # after) emailColumn nameColumn agent = Inl TypeError"
    by (simp add: resolveRecipients_throws)
qed

theorem empty_email_excluded_witness:
  "normalizeValue (rowGet [(''Name'', ''Bo''), (''Email'', ''  '')] ''Email'') = [] \<and>
   resolveRecipients
     ([[(''Name'', ''Al''), (''Email'', ''al@x.io'')]] @
      [(''Name'', ''Bo''), (''Email'', ''  '')] # [[(''Name'', ''Cy''), (''Email'', ''cy@x.io'')]])
     ''Email'' ''Name'' generalOutreach =
   resolveRecipients
     ([[(''Name'', ''Al''), (''Email'', ''al@x.io'')]] @
      [[(''Name'', ''Cy''), (''Email'', ''cy@x.io'')]])
     ''Email'' ''Name'' generalOutreach \<and>
   map r_to (projr (resolveRecipients
     ([[(''Name'', ''Al''), (''Email'', ''al@x.io'')]] @
      [[(''Name'', ''Cy''), (''Email'', ''cy@x.io'')]])
     ''Email'' ''Name'' generalOutreach)) = [''al@x.io'', ''cy@x.io'']"
proof -
  have h1: "normalizeValue (rowGet [(''Name'', ''Bo''), (''Email'', ''  '')] ''Email'') = []"
    by code_simp
  have h2: "applyFilter [(''Name'', ''Bo''), (''Email'', ''  '')] (a_filter generalOutreach) \<noteq>
              Inl TypeError"
    by code_simp
  have v: "map r_to (projr (resolveRecipients
     ([[(''Name'', ''Al''), (''Email'', ''al@x.io'')]] @
      [[(''Name'', ''Cy''), (''Email'', ''cy@x.io'')]])
     ''Email'' ''Name'' generalOutreach)) = [''al@x.io'', ''cy@x.io'']"
    by code_simp
  from h1 h2 v
    empty_email_excluded[where emailColumn = "''Email''" and agent = generalOutreach
      and row = "[(''Name'', ''Bo''), (''Email'', ''  '')]"]
  show ?thesis
    by blast
qed

lemma setAdd_set: "set (setAdd x members) = insert x (set members)"
  by (auto simp: setAdd_def)

lemma setAdd_distinct: "distinct members \<Longrightarrow> distinct (setAdd x members)"
  by (simp add: setAdd_def)

lemma addRowEmail_ok:
  assumes "applyFilter row (a_filter agent) = Inr matches"
  shows "\<exists>emailSet'.
           addRowEmail emailColumn agent row emailSet = Inr emailSet' \<and>
           set emailSet' =
             set emailSet \<union>
             (if matches \<and> normalizeValue (rowGet row emailColumn) \<noteq> []
              then {normalizeValue (rowGet row emailColumn)} else {}) \<and>
           (distinct emailSet \<longrightarrow> distinct emailSet')"
  using assms
  by (auto simp: addRowEmail_def Let_def truthy_def setAdd_set setAdd_distinct)

lemma rows_forEach_throws:
  "resolveRecipients rows emailColumn nameColumn agent = Inl TypeError \<Longrightarrow>
   forEachE (addRowEmail emailColumn agent) rows emailSet = Inl TypeError"
proof (induction rows arbitrary: emailSet)
  case Nil
  then show ?case by (simp add: resolveRecipients_Nil)
next
  case (Cons row rows)
  show ?case
  proof (cases "applyFilter row (a_filter agent)")
    case (Inl err)
    then show ?thesis
      using jsError_unique[of err] by (simp add: addRowEmail_def)
  next
    case (Inr matches)
    with Cons.prems have rest: "resolveRecipients rows emailColumn nameColumn agent = Inl TypeError"
      by (cases "resolveRecipients rows emailColumn nameColumn agent")
        (simp_all add: resolveRecipients_Cons jsError_unique)
    from addRowEmail_ok[OF Inr, of emailColumn emailSet]
    obtain emailSet' where "addRowEmail emailColumn agent row emailSet = Inr emailSet'"
      by blast
    then show ?thesis
      using Cons.IH[OF rest, of emailSet'] by simp
  qed
qed

lemma rows_forEach_ok:
  "resolveRecipients rows emailColumn nameColumn agent = Inr rs \<Longrightarrow>
   \<exists>emailSet'.
     forEachE (addRowEmail emailColumn agent) rows emailSet = Inr emailSet' \<and>
     set emailSet' = set emailSet \<union> r_to ` set rs \<and>
     (distinct emailSet \<longrightarrow> distinct emailSet')"
proof (induction rows arbitrary: emailSet rs)
  case Nil
  then show ?case by (auto simp: resolveRecipients_Nil)
next
  case (Cons row rows)
  from Cons.prems obtain matches rest
    where m: "applyFilter row (a_filter agent) = Inr matches"
      and rest: "resolveRecipients rows emailColumn nameColumn agent = Inr rest"
      and rs: "rs = (if matches
                     then (case prepareRecipient emailColumn nameColumn agent row of
                             Some r \<Rightarrow> [r] | None \<Rightarrow> [])
                     else []) @ rest"
    by (auto simp: resolveRecipients_Cons split: sum.splits)
  from addRowEmail_ok[OF m, of emailColumn emailSet]
  obtain first where first: "addRowEmail emailColumn agent row emailSet = Inr first"
    and first_set: "set first =
             set emailSet \<union>
             (if matches \<and> normalizeValue (rowGet row emailColumn) \<noteq> []
              then {normalizeValue (rowGet row emailColumn)} else {})"
    and first_distinct: "distinct emailSet \<longrightarrow> distinct first"
    by blast
  from Cons.IH[OF rest, of first]
  obtain emailSet' where step: "forEachE (addRowEmail emailColumn agent) rows first = Inr emailSet'"
    and step_set: "set emailSet' = set first \<union> r_to ` set rest"
    and step_distinct: "distinct first \<longrightarrow> distinct emailSet'"
    by blast
  have rs_set: "r_to ` set rs =
                  (if matches \<and> normalizeValue (rowGet row emailColumn) \<noteq> []
                   then {normalizeValue (rowGet row emailColumn)} else {}) \<union>
                  r_to ` set rest"
  proof (cases matches)
    case False
    with rs have "rs = rest"
      by simp
    with False show ?thesis
      by simp
  next
    case True
    show ?thesis
    proof (cases "prepareRecipient emailColumn nameColumn agent row")
      case None
      with True rs have "rs = rest"
        by simp
      moreover from None have "normalizeValue (rowGet row emailColumn) = []"
        by (simp add: prepareRecipient_None)
      ultimately show ?thesis
        by simp
    next
      case (Some r)
      with True rs have "rs = r # rest"
        by simp
      moreover from prepareRecipient_Some[OF Some]
      have "r_to r = normalizeValue (rowGet row emailColumn)"
        and "normalizeValue (rowGet row emailColumn) \<noteq> []"
        by auto
      ultimately show ?thesis
        using True by simp
    qed
  qed
  have "forEachE (addRowEmail emailColumn agent) (row # rows) emailSet = Inr emailSet'"
    using first step by simp
  moreover have "set emailSet' = set emailSet \<union> r_to ` set rs"
    unfolding step_set first_set rs_set by auto
  moreover have "distinct emailSet \<longrightarrow> distinct emailSet'"
    using first_distinct step_distinct by blast
  ultimately show ?case
    by blast
qed

lemma agents_forEach_throws:
  "\<exists>agent \<in> set agents. resolveRecipients rows emailColumn nameColumn agent = Inl TypeError \<Longrightarrow>
   forEachE (\<lambda>agent emailSet. forEachE (addRowEmail emailColumn agent) rows emailSet)
     agents emailSet = Inl TypeError"
proof (induction agents arbitrary: emailSet)
  case Nil
  then show ?case by simp
next
  case (Cons agent agents)
  show ?case
  proof (cases rule: resolveRecipients_cases[of rows emailColumn nameColumn agent])
    case 1
    then show ?thesis
      by (simp add: rows_forEach_throws)
  next
    case (2 rs)
    with Cons.prems
    have later: "\<exists>agent \<in> set agents.
                   resolveRecipients rows emailColumn nameColumn agent = Inl TypeError"
      by auto
    from rows_forEach_ok[OF 2, of emailSet]
    obtain emailSet' where "forEachE (addRowEmail emailColumn agent) rows emailSet = Inr emailSet'"
      by blast
    then show ?thesis
      using Cons.IH[OF later, of emailSet'] by simp
  qed
qed

lemma agents_forEach_ok:
  "\<forall>agent \<in> set agents. resolveRecipients rows emailColumn nameColumn agent = Inr (resolved agent)
   \<Longrightarrow>
   \<exists>emailSet'.
     forEachE (\<lambda>agent emailSet. forEachE (addRowEmail emailColumn agent) rows emailSet)
       agents emailSet = Inr emailSet' \<and>
     set emailSet' = set emailSet \<union> (\<Union>agent \<in> set agents. r_to ` set (resolved agent)) \<and>
     (distinct emailSet \<longrightarrow> distinct emailSet')"
proof (induction agents arbitrary: emailSet)
  case Nil
  then show ?case by simp
next
  case (Cons agent agents)
  then have this_agent: "resolveRecipients rows emailColumn nameColumn agent = Inr (resolved agent)"
    and later: "\<forall>agent \<in> set agents.
                  resolveRecipients rows emailColumn nameColumn agent = Inr (resolved agent)"
    by simp_all
  from rows_forEach_ok[OF this_agent, of emailSet]
  obtain first where first: "forEachE (addRowEmail emailColumn agent) rows emailSet = Inr first"
    and first_set: "set first = set emailSet \<union> r_to ` set (resolved agent)"
    and first_distinct: "distinct emailSet \<longrightarrow> distinct first"
    by blast
  from Cons.IH[OF later, of first]
  obtain emailSet' where
    step: "forEachE (\<lambda>agent emailSet. forEachE (addRowEmail emailColumn agent) rows emailSet)
             agents first = Inr emailSet'"
    and step_set: "set emailSet' =
                     set first \<union> (\<Union>agent \<in> set agents. r_to ` set (resolved agent))"
    and step_distinct: "distinct first \<longrightarrow> distinct emailSet'"
    by blast
  have "forEachE (\<lambda>agent emailSet. forEachE (addRowEmail emailColumn agent) rows emailSet)
          (agent # agents) emailSet = Inr emailSet'"
    using first step by simp
  moreover have "set emailSet' =
                   set emailSet \<union> (\<Union>agent \<in> set (agent # agents). r_to ` set (resolved agent))"
    unfolding step_set first_set by auto
  moreover have "distinct emailSet \<longrightarrow> distinct emailSet'"
    using first_distinct step_distinct by blast
  ultimately show ?case
    by blast
qed

lemma totalRecipients_card:
  assumes "emailColumn \<noteq> []"
    and "\<forall>agent \<in> set agents.
           resolveRecipients (u_rows u) emailColumn nameColumn agent = Inr (resolved agent)"
  shows "totalRecipients (Some u) emailColumn agents =
           Inr (card (\<Union>agent \<in> set agents. r_to ` set (resolved agent)))"
proof -
  from agents_forEach_ok[OF assms(2), of "[]"]
  obtain emailSet where
    "forEachE (\<lambda>agent emailSet. forEachE (addRowEmail emailColumn agent) (u_rows u) emailSet)
       agents [] = Inr emailSet"
    and "set emailSet = (\<Union>agent \<in> set agents. r_to ` set (resolved agent))"
    and "distinct emailSet"
    by auto
  then show ?thesis
    using assms(1) distinct_card[of emailSet]
    by (simp add: totalRecipients_def truthy_def)
qed

lemma totalRecipients_throws:
  assumes "emailColumn \<noteq> []"
    and "\<exists>agent \<in> set agents.
           resolveRecipients (u_rows u) emailColumn nameColumn agent = Inl TypeError"
  shows "totalRecipients (Some u) emailColumn agents = Inl TypeError"
  using assms(1) agents_forEach_throws[OF assms(2), of "[]"]
  by (simp add: totalRecipients_def truthy_def)

lemma toLowerCase_Nil: "toLowerCase s = [] \<longleftrightarrow> s = []"
  by (simp add: toLowerCase_def)

text \<open>
  C10. The distinct count compares addresses as they are, case included: for a table of
  two rows whose trimmed email values differ but agree after lower-casing, and one agent
  whose filter accepts both rows, the count is 2.
\<close>

theorem totalRecipients_case_sensitive:
  assumes "emailColumn \<noteq> []"
    and "applyFilter row1 (a_filter agent) = Inr True"
    and "applyFilter row2 (a_filter agent) = Inr True"
    and "normalizeValue (rowGet row1 emailColumn) \<noteq> normalizeValue (rowGet row2 emailColumn)"
    and "toLowerCase (normalizeValue (rowGet row1 emailColumn)) =
         toLowerCase (normalizeValue (rowGet row2 emailColumn))"
  shows "totalRecipients (Some \<lparr>u_columns = columns, u_rows = [row1, row2], u_fileName = fileName\<rparr>)
           emailColumn [agent] = Inr 2"
proof -
  have "normalizeValue (rowGet row1 emailColumn) \<noteq> []"
    and "normalizeValue (rowGet row2 emailColumn) \<noteq> []"
    using assms(4,5) by (metis toLowerCase_Nil)+
  with assms(1-4) show ?thesis
    by (simp add: totalRecipients_def addRowEmail_def setAdd_def truthy_def Let_def)
qed

theorem totalRecipients_case_sensitive_witness:
  "totalRecipients
     (Some \<lparr>u_columns = [''Email''],
            u_rows = [[(''Email'', ''Ana@Example.com'')], [(''Email'', ''ana@example.com'')]],
            u_fileName = ''contacts.csv''\<rparr>)
     ''Email''
     [\<lparr>a_id = ''1'', a_name = ''General Outreach'', a_subjectTemplate = ''Hello {{Name}}'',
       a_bodyTemplate = ''Hi'', a_filter = None\<rparr>] = Inr 2"
proof -
  have h1: "''Email'' \<noteq> []" by simp
  have h2: "applyFilter [(''Email'', ''Ana@Example.com'')]
              (a_filter \<lparr>a_id = ''1'', a_name = ''General Outreach'',
                 a_subjectTemplate = ''Hello {{Name}}'', a_bodyTemplate = ''Hi'', a_filter = None\<rparr>)
            = Inr True"
    by code_simp
  have h3: "applyFilter [(''Email'', ''ana@example.com'')]
              (a_filter \<lparr>a_id = ''1'', a_name = ''General Outreach'',
                 a_subjectTemplate = ''Hello {{Name}}'', a_bodyTemplate = ''Hi'', a_filter = None\<rparr>)
            = Inr True"
    by code_simp
  have h4: "normalizeValue (rowGet [(''Email'', ''Ana@Example.com'')] ''Email'') \<noteq>
            normalizeValue (rowGet [(''Email'', ''ana@example.com'')] ''Email'')"
    by code_simp
  have h5: "toLowerCase (normalizeValue (rowGet [(''Email'', ''Ana@Example.com'')] ''Email'')) =
            toLowerCase (normalizeValue (rowGet [(''Email'', ''ana@example.com'')] ''Email''))"
    by code_simp
  show ?thesis
    by (rule totalRecipients_case_sensitive[OF h1 h2 h3 h4 h5])
qed

section \<open>Properties of the send route\<close>

lemma sendRecipients_flat:
  "fst (sendRecipients transport dryRun fromHeader agent recipients sent w) =
     (case fst (sendFlat transport fromHeader (map (Pair agent) recipients) (attempts w)) of
        Some address \<Rightarrow> Inl address
      | None \<Rightarrow> Inr (sent + length recipients)) \<and>
   attempts (snd (sendRecipients transport dryRun fromHeader agent recipients sent w)) =
     snd (sendFlat transport fromHeader (map (Pair agent) recipients) (attempts w))"
proof (induction recipients arbitrary: sent w)
  case Nil
  then show ?case by simp
next
  case (Cons recipient rest)
  show ?case
  proof (cases "transport (attempts w) (buildMail fromHeader agent recipient)")
    case True
    then show ?thesis
      using Cons.IH by (simp add: Let_def mailOf_def split: option.split)
  next
    case False
    then show ?thesis
      by (simp add: Let_def mailOf_def)
  qed
qed

lemma sendFlat_append:
  "sendFlat transport fromHeader (xs @ ys) history =
     (case sendFlat transport fromHeader xs history of
        (Some address, history') \<Rightarrow> (Some address, history')
      | (None, history') \<Rightarrow> sendFlat transport fromHeader ys history')"
  by (induction xs arbitrary: history) simp_all

lemma dispatchAgents_flat:
  "fst (dispatchAgents transport dryRun fromHeader agents summary w) =
     (case fst (sendFlat transport fromHeader (agentRecipientPairs agents) (attempts w)) of
        Some address \<Rightarrow> Inl address
      | None \<Rightarrow> Inr (summary @ map (\<lambda>agent. (p_id agent, length (p_recipients agent))) agents)) \<and>
   attempts (snd (dispatchAgents transport dryRun fromHeader agents summary w)) =
     snd (sendFlat transport fromHeader (agentRecipientPairs agents) (attempts w))"
proof (induction agents arbitrary: summary w)
  case Nil
  then show ?case by (simp add: agentRecipientPairs_def)
next
  case (Cons agent rest)
  obtain res w' where s: "sendRecipients transport dryRun fromHeader agent (p_recipients agent) 0 w = (res, w')"
    by (cases "sendRecipients transport dryRun fromHeader agent (p_recipients agent) 0 w")
  obtain found h' where f: "sendFlat transport fromHeader (map (Pair agent) (p_recipients agent)) (attempts w) = (found, h')"
    by (cases "sendFlat transport fromHeader (map (Pair agent) (p_recipients agent)) (attempts w)")
  from sendRecipients_flat[of transport dryRun fromHeader agent "p_recipients agent" 0 w] s f
  have res: "res = (case found of Some address \<Rightarrow> Inl address
                    | None \<Rightarrow> Inr (length (p_recipients agent)))"
    and w': "attempts w' = h'"
    by (simp_all split: option.split)
  have pairs: "agentRecipientPairs (agent # rest) =
               map (Pair agent) (p_recipients agent) @ agentRecipientPairs rest"
    by (simp add: agentRecipientPairs_def)
  show ?case
  proof (cases found)
    case None
    from s res None
    have s': "sendRecipients transport dryRun fromHeader agent (p_recipients agent) 0 w =
              (Inr (length (p_recipients agent)), w')"
      by simp
    have d: "dispatchAgents transport dryRun fromHeader (agent # rest) summary w =
             dispatchAgents transport dryRun fromHeader rest
               (summary @ [(p_id agent, length (p_recipients agent))]) w'"
      by (simp add: s')
    from f None w'
    have fl: "sendFlat transport fromHeader (agentRecipientPairs (agent # rest)) (attempts w) =
              sendFlat transport fromHeader (agentRecipientPairs rest) (attempts w')"
      by (simp add: pairs sendFlat_append)
    have e: "(summary @ [(p_id agent, length (p_recipients agent))]) @
               map (\<lambda>agent. (p_id agent, length (p_recipients agent))) rest =
             summary @ map (\<lambda>agent. (p_id agent, length (p_recipients agent))) (agent # rest)"
      by simp
    show ?thesis
      unfolding d fl
      by (rule Cons.IH[of "summary @ [(p_id agent, length (p_recipients agent))]" w',
            unfolded e])
  next
    case (Some address)
    from s res Some
    have s': "sendRecipients transport dryRun fromHeader agent (p_recipients agent) 0 w =
              (Inl address, w')"
      by simp
    have d: "dispatchAgents transport dryRun fromHeader (agent # rest) summary w =
             (Inl address, w')"
      by (simp add: s')
    from f Some w'
    have fl: "sendFlat transport fromHeader (agentRecipientPairs (agent # rest)) (attempts w) =
              (Some address, attempts w')"
      by (simp add: pairs sendFlat_append)
    show ?thesis
      unfolding d fl by simp
  qed
qed

lemma acceptsAll_append:
  "acceptsAll transport history (xs @ ys) =
     (acceptsAll transport history xs \<and> acceptsAll transport (history @ xs) ys)"
  by (induction xs arbitrary: history) auto

lemma sendFlat_accepted:
  "acceptsAll transport history (map (mailOf fromHeader) pairs) \<Longrightarrow>
   sendFlat transport fromHeader pairs history =
     (None, history @ map (mailOf fromHeader) pairs)"
  by (induction pairs arbitrary: history) simp_all

lemma sendFlat_refused:
  assumes "acceptsAll transport history (map (mailOf fromHeader) before)"
    and "\<not> transport (history @ map (mailOf fromHeader) before) (mailOf fromHeader pair)"
  shows "sendFlat transport fromHeader (before @ pair # after) history =
           (Some (r_to (snd pair)), history @ map (mailOf fromHeader) (before @ [pair]))"
  using assms by (simp add: sendFlat_append sendFlat_accepted)

lemma mailOf_from: "m_from (mailOf fromHeader pair) = fromHeader"
  by (simp add: mailOf_def buildMail_def)

lemma sendFlat_from:
  "\<forall>m \<in> set history. m_from m = fromHeader \<Longrightarrow>
   \<forall>m \<in> set (snd (sendFlat transport fromHeader pairs history)). m_from m = fromHeader"
proof (induction pairs arbitrary: history)
  case Nil
  then show ?case by simp
next
  case (Cons pair rest)
  have step: "\<forall>m \<in> set (history @ [mailOf fromHeader pair]). m_from m = fromHeader"
    using Cons.prems by (simp add: mailOf_from)
  then have "\<forall>m \<in> set (snd (sendFlat transport fromHeader rest (history @ [mailOf fromHeader pair]))).
              m_from m = fromHeader"
    by (rule Cons.IH)
  with step show ?case
    by (cases "transport history (mailOf fromHeader pair)") simp_all
qed

lemma summary_total:
  "fold (\<lambda>item acc. acc + snd item)
     (map (\<lambda>agent. (p_id agent, length (p_recipients agent))) agents) n =
   n + length (agentRecipientPairs agents)"
  by (induction agents arbitrary: n) (simp_all add: agentRecipientPairs_def)

lemma POST_dispatch:
  assumes "requestIssues isEmail req = []"
    and "resolveFromHeader env
           (case req_from req of
              Some frm \<Rightarrow> frm
            | None \<Rightarrow> \<lparr>from_email = None, from_name = None\<rparr>) = Some fromHeader"
  shows "POST isEmail env transport (Some req) =
           (case dispatchAgents transport (dryRunOf env) fromHeader (req_agents req) []
                   \<lparr>attempts = [], console = []\<rparr> of
              (Inl address, w) \<Rightarrow>
                (\<lparr>status = 500, ok = False,
                  message = ''Failed to dispatch email to '' @ address @
                            ''. Check server logs for details.'',
                  issues = None\<rparr>, w)
            | (Inr summary, w) \<Rightarrow>
                (\<lparr>status = 200, ok = True,
                  message =
                    (if dryRunOf env
                     then ''Dry run: generated '' @
                          showNat (fold (\<lambda>item acc. acc + snd item) summary 0) @
                          '' email payloads across '' @ showNat (length summary) @
                          '' agents. Configure SMTP_HOST to send live emails.''
                     else ''Dispatched '' @
                          showNat (fold (\<lambda>item acc. acc + snd item) summary 0) @
                          '' emails across '' @ showNat (length summary) @ '' agents.''),
                  issues = None\<rparr>, w))"
  using assms
  by (simp add: POST_def safeParse_def Let_def split: sum.split prod.split)

lemma POST_invalid:
  "requestIssues isEmail req \<noteq> [] \<Longrightarrow>
   POST isEmail env transport (Some req) =
     (\<lparr>status = 422, ok = False, message = ''Invalid payload.'',
       issues = Some (requestIssues isEmail req)\<rparr>,
      \<lparr>attempts = [], console = []\<rparr>)"
  by (simp add: POST_def safeParse_def Let_def)

lemma concat_enumerate_empty:
  assumes "\<And>i x. (f i x = []) = P x"
  shows "(concat (map (\<lambda>(i, x). f i x) (enumerate n xs)) = []) = (\<forall>x \<in> set xs. P x)"
  by (induction xs arbitrary: n) (simp_all add: assms)

lemma recipientIssues_empty:
  "(recipientIssues isEmail path r = []) =
     (isEmail (r_to r) \<and> r_subject r \<noteq> [] \<and> r_body r \<noteq> [] \<and>
      r_name r \<noteq> Some NameObject)"
  by (cases "r_subject r"; cases "r_body r")
    (auto simp: recipientIssues_def split: option.splits NameField.splits)

lemma agentIssues_empty:
  "(agentIssues isEmail path agent = []) =
     (p_recipients agent \<noteq> [] \<and>
      (\<forall>r \<in> set (p_recipients agent).
         isEmail (r_to r) \<and> r_subject r \<noteq> [] \<and> r_body r \<noteq> [] \<and>
         r_name r \<noteq> Some NameObject))"
proof -
  have "(concat (map (\<lambda>(i, r). recipientIssues isEmail (path @ [Key ''recipients'', Idx i]) r)
                  (enumerate 0 (p_recipients agent))) = []) =
        (\<forall>r \<in> set (p_recipients agent).
           isEmail (r_to r) \<and> r_subject r \<noteq> [] \<and> r_body r \<noteq> [] \<and>
           r_name r \<noteq> Some NameObject)"
    by (rule concat_enumerate_empty) (rule recipientIssues_empty)
  then show ?thesis
    by (cases "p_recipients agent") (simp_all add: agentIssues_def)
qed

lemma requestIssues_empty:
  "(requestIssues isEmail req = []) =
     (req_agents req \<noteq> [] \<and>
      (\<forall>agent \<in> set (req_agents req).
         p_recipients agent \<noteq> [] \<and>
         (\<forall>r \<in> set (p_recipients agent).
            isEmail (r_to r) \<and> r_subject r \<noteq> [] \<and> r_body r \<noteq> [] \<and>
            r_name r \<noteq> Some NameObject)) \<and>
      (\<forall>frm e. req_from req = Some frm \<and> from_email frm = Some e \<longrightarrow> isEmail e))"
proof -
  have "(concat (map (\<lambda>(i, agent). agentIssues isEmail [Key ''agents'', Idx i] agent)
                  (enumerate 0 (req_agents req))) = []) =
        (\<forall>agent \<in> set (req_agents req).
           p_recipients agent \<noteq> [] \<and>
           (\<forall>r \<in> set (p_recipients agent).
              isEmail (r_to r) \<and> r_subject r \<noteq> [] \<and> r_body r \<noteq> [] \<and>
              r_name r \<noteq> Some NameObject))"
    by (rule concat_enumerate_empty) (rule agentIssues_empty)
  then show ?thesis
    by (cases "req_agents req")
      (auto simp: requestIssues_def split: option.splits)
qed

text \<open>
  C7. A request whose agents list is empty, or that has an agent without recipients, or a
  recipient whose \<open>to\<close> fails the email test or whose subject or body is empty, is
  rejected as a whole: the answer is status 422, \<open>ok: false\<close>, with the non-empty list
  of issues, and nothing was handed to the transport or written to the console, for
  every environment and transport.
\<close>

theorem invalid_payload_rejected:
  assumes "req_agents req = [] \<or>
           (\<exists>agent \<in> set (req_agents req).
              p_recipients agent = [] \<or>
              (\<exists>r \<in> set (p_recipients agent).
                 \<not> isEmail (r_to r) \<or> r_subject r = [] \<or> r_body r = []))"
  shows "requestIssues isEmail req \<noteq> [] \<and>
         POST isEmail env transport (Some req) =
           (\<lparr>status = 422, ok = False, message = ''Invalid payload.'',
             issues = Some (requestIssues isEmail req)\<rparr>,
            \<lparr>attempts = [], console = []\<rparr>)"
proof -
  from assms have "requestIssues isEmail req \<noteq> []"
    unfolding requestIssues_empty by blast
  then show ?thesis
    by (simp add: POST_invalid)
qed

theorem invalid_payload_rejected_witness:
  "POST hasAtSign exampleEnv alwaysAccepts (Some \<lparr>req_agents = [], req_from = None\<rparr>) =
     (\<lparr>status = 422, ok = False, message = ''Invalid payload.'',
       issues = Some [(''too_small'', [Key ''agents''])]\<rparr>,
      \<lparr>attempts = [], console = []\<rparr>) \<and>
   POST hasAtSign exampleEnv alwaysAccepts
     (Some \<lparr>req_agents = [agentA, \<lparr>p_id = ''c'', p_name = ''C'', p_recipients = []\<rparr>],
            req_from = None\<rparr>) =
     (\<lparr>status = 422, ok = False, message = ''Invalid payload.'',
       issues = Some [(''too_small'', [Key ''agents'', Idx 1, Key ''recipients''])]\<rparr>,
      \<lparr>attempts = [], console = []\<rparr>)"
proof -
  have h1: "req_agents \<lparr>req_agents = [], req_from = None\<rparr> = [] \<or>
           (\<exists>agent \<in> set (req_agents \<lparr>req_agents = [], req_from = None\<rparr>).
              p_recipients agent = [] \<or>
              (\<exists>r \<in> set (p_recipients agent).
                 \<not> hasAtSign (r_to r) \<or> r_subject r = [] \<or> r_body r = []))"
    by simp
  have i1: "requestIssues hasAtSign \<lparr>req_agents = [], req_from = None\<rparr> =
            [(''too_small'', [Key ''agents''])]"
    by code_simp
  let ?R = "\<lparr>req_agents = [agentA, \<lparr>p_id = ''c'', p_name = ''C'', p_recipients = []\<rparr>],
             req_from = None\<rparr>"
  have h2: "req_agents ?R = [] \<or>
           (\<exists>agent \<in> set (req_agents ?R).
              p_recipients agent = [] \<or>
              (\<exists>r \<in> set (p_recipients agent).
                 \<not> hasAtSign (r_to r) \<or> r_subject r = [] \<or> r_body r = []))"
    by simp
  have i2: "requestIssues hasAtSign ?R =
            [(''too_small'', [Key ''agents'', Idx 1, Key ''recipients''])]"
    by code_simp
  from invalid_payload_rejected[OF h1, of exampleEnv alwaysAccepts]
    invalid_payload_rejected[OF h2, of exampleEnv alwaysAccepts]
  show ?thesis
    unfolding i1 i2 by simp
qed

text \<open>
  C9. A request whose \<open>from.email\<close> is present and fails the email test is rejected
  with status 422 and an issue at \<open>from.email\<close>, whatever the environment: the default
  sender is not consulted and nothing is sent. An email test refuses the empty string, so
  this includes a request with \<open>from.email\<close> set to the empty string, which is what
  \<open>handleSend\<close> posts when the sender field is left empty.
\<close>

theorem invalid_from_email_rejected:
  assumes "req_from req = Some frm" and "from_email frm = Some e" and "\<not> isEmail e"
  shows "(''invalid_string'', [Key ''from'', Key ''email'']) \<in> set (requestIssues isEmail req) \<and>
         POST isEmail env transport (Some req) =
           (\<lparr>status = 422, ok = False, message = ''Invalid payload.'',
             issues = Some (requestIssues isEmail req)\<rparr>,
            \<lparr>attempts = [], console = []\<rparr>)"
proof -
  from assms have m: "(''invalid_string'', [Key ''from'', Key ''email'']) \<in> set (requestIssues isEmail req)"
    by (simp add: requestIssues_def)
  then have "requestIssues isEmail req \<noteq> []"
    by auto
  with m show ?thesis
    by (simp add: POST_invalid)
qed

theorem invalid_from_email_rejected_witness:
  "handleSend (Some exampleUpload) ''Email'' ''Name'' [generalOutreach] [] [] =
     Fetch \<lparr>req_agents =
              [\<lparr>p_id = ''1'', p_name = ''General Outreach'',
                p_recipients =
                  [\<lparr>r_to = ''ana@example.com'', r_subject = ''Hello Ana'',
                    r_body = ''Hi Ana'',
                    r_variables = Some [(''Name'', ''Ana''), (''Email'', ''ana@example.com'')],
                    r_name = Some (NameString ''Ana'')\<rparr>]\<rparr>],
            req_from = Some \<lparr>from_email = Some [], from_name = Some []\<rparr>\<rparr> \<and>
   POST hasAtSign exampleEnv alwaysAccepts
     (Some \<lparr>req_agents =
              [\<lparr>p_id = ''1'', p_name = ''General Outreach'',
                p_recipients =
                  [\<lparr>r_to = ''ana@example.com'', r_subject = ''Hello Ana'',
                    r_body = ''Hi Ana'',
                    r_variables = Some [(''Name'', ''Ana''), (''Email'', ''ana@example.com'')],
                    r_name = Some (NameString ''Ana'')\<rparr>]\<rparr>],
            req_from = Some \<lparr>from_email = Some [], from_name = Some []\<rparr>\<rparr>) =
     (\<lparr>status = 422, ok = False, message = ''Invalid payload.'',
       issues = Some [(''invalid_string'', [Key ''from'', Key ''email''])]\<rparr>,
      \<lparr>attempts = [], console = []\<rparr>)"
proof -
  let ?R = "\<lparr>req_agents =
              [\<lparr>p_id = ''1'', p_name = ''General Outreach'',
                p_recipients =
                  [\<lparr>r_to = ''ana@example.com'', r_subject = ''Hello Ana'',
                    r_body = ''Hi Ana'',
                    r_variables = Some [(''Name'', ''Ana''), (''Email'', ''ana@example.com'')],
                    r_name = Some (NameString ''Ana'')\<rparr>]\<rparr>],
            req_from = Some \<lparr>from_email = Some [], from_name = Some []\<rparr>\<rparr>"
  have h1: "req_from ?R = Some \<lparr>from_email = Some [], from_name = Some []\<rparr>"
    by simp
  have h2: "from_email \<lparr>from_email = Some [], from_name = Some []\<rparr> = Some []"
    by simp
  have h3: "\<not> hasAtSign []"
    by (simp add: hasAtSign_def)
  have i: "requestIssues hasAtSign ?R = [(''invalid_string'', [Key ''from'', Key ''email''])]"
    by code_simp
  have s: "handleSend (Some exampleUpload) ''Email'' ''Name'' [generalOutreach] [] [] = Fetch ?R"
    by code_simp
  note t = invalid_from_email_rejected[where req = ?R
      and frm = "\<lparr>from_email = Some [], from_name = Some []\<rparr>" and e = "[]"
      and isEmail = hasAtSign and env = exampleEnv and transport = alwaysAccepts]
  from t[OF h1 h2 h3] s show ?thesis
    unfolding i by simp
qed

text \<open>
  C1. For a valid request with a resolved sender: when the transport accepts the messages
  of the agent-recipient pairs \<open>before\<close> and refuses the message of the next pair, the
  answer is status 500, \<open>ok: false\<close>, with a message naming that recipient's address
  and no summary, and the messages handed to the transport are exactly those of
  \<open>before\<close> and of the refused pair: no pair after it, of this or a later agent, was
  attempted.
\<close>

theorem abort_on_first_failure:
  assumes "requestIssues isEmail req = []"
    and "resolveFromHeader env
           (case req_from req of
              Some frm \<Rightarrow> frm
            | None \<Rightarrow> \<lparr>from_email = None, from_name = None\<rparr>) = Some fromHeader"
    and "agentRecipientPairs (req_agents req) = before @ (agent, recipient) # after"
    and "acceptsAll transport [] (map (mailOf fromHeader) before)"
    and "\<not> transport (map (mailOf fromHeader) before) (mailOf fromHeader (agent, recipient))"
  shows "fst (POST isEmail env transport (Some req)) =
           \<lparr>status = 500, ok = False,
            message = ''Failed to dispatch email to '' @ r_to recipient @
                      ''. Check server logs for details.'',
            issues = None\<rparr> \<and>
         attempts (snd (POST isEmail env transport (Some req))) =
           map (mailOf fromHeader) (before @ [(agent, recipient)])"
proof -
  obtain res w where d: "dispatchAgents transport (dryRunOf env) fromHeader (req_agents req) []
                           \<lparr>attempts = [], console = []\<rparr> = (res, w)"
    by (cases "dispatchAgents transport (dryRunOf env) fromHeader (req_agents req) []
                 \<lparr>attempts = [], console = []\<rparr>")
  have f: "sendFlat transport fromHeader (agentRecipientPairs (req_agents req)) [] =
           (Some (r_to recipient), map (mailOf fromHeader) (before @ [(agent, recipient)]))"
    unfolding assms(3) using sendFlat_refused[of transport "[]" fromHeader before "(agent, recipient)" after]
      assms(4,5) by simp
  from dispatchAgents_flat[of transport "dryRunOf env" fromHeader "req_agents req" "[]"
      "\<lparr>attempts = [], console = []\<rparr>"] d f
  have "res = Inl (r_to recipient)"
    and "attempts w = map (mailOf fromHeader) (before @ [(agent, recipient)])"
    by simp_all
  with d show ?thesis
    by (simp add: POST_dispatch[OF assms(1,2)])
qed

theorem abort_on_first_failure_witness:
  "fst (POST hasAtSign exampleEnv failsOnSecond (Some exampleRequest)) =
     \<lparr>status = 500, ok = False,
      message = ''Failed to dispatch email to a2@example.com. Check server logs for details.'',
      issues = None\<rparr> \<and>
   map m_to (attempts (snd (POST hasAtSign exampleEnv failsOnSecond (Some exampleRequest)))) =
     [''a1@example.com'', ''a2@example.com'']"
proof -
  have h1: "requestIssues hasAtSign exampleRequest = []"
    by code_simp
  have h2: "resolveFromHeader exampleEnv
              (case req_from exampleRequest of
                 Some frm \<Rightarrow> frm
               | None \<Rightarrow> \<lparr>from_email = None, from_name = None\<rparr>) =
            Some ''ops@example.com <ops@example.com>''"
    by code_simp
  have h3: "agentRecipientPairs (req_agents exampleRequest) =
            [(agentA, exampleRecipient ''a1@example.com'')] @
            (agentA, exampleRecipient ''a2@example.com'') #
            [(agentB, exampleRecipient ''b1@example.com''),
             (agentB, exampleRecipient ''b2@example.com'')]"
    by (simp add: agentRecipientPairs_def exampleRequest_def agentA_def agentB_def)
  have h4: "acceptsAll failsOnSecond []
              (map (mailOf ''ops@example.com <ops@example.com>'')
                 [(agentA, exampleRecipient ''a1@example.com'')])"
    by code_simp
  have h5: "\<not> failsOnSecond
              (map (mailOf ''ops@example.com <ops@example.com>'')
                 [(agentA, exampleRecipient ''a1@example.com'')])
              (mailOf ''ops@example.com <ops@example.com>''
                 (agentA, exampleRecipient ''a2@example.com''))"
    by code_simp
  note t = abort_on_first_failure[OF h1 h2 h3 h4 h5]
  have e1: "r_to (exampleRecipient ''a2@example.com'') = ''a2@example.com''"
    by (simp add: exampleRecipient_def)
  have e2: "map m_to (map (mailOf ''ops@example.com <ops@example.com>'')
              ([(agentA, exampleRecipient ''a1@example.com'')] @
               [(agentA, exampleRecipient ''a2@example.com'')])) =
            [''a1@example.com'', ''a2@example.com'']"
    by code_simp
  from t e1 e2 show ?thesis
    by simp
qed

lemma resolveFromHeader_eq:
  "resolveFromHeader env frm =
     (let email = (case from_email frm of
                     Some e \<Rightarrow> if e \<noteq> [] then e else defaultEmail env
                   | None \<Rightarrow> defaultEmail env);
          name = (case from_name frm of
                    Some n \<Rightarrow> if n \<noteq> [] then n else defaultName env
                  | None \<Rightarrow> defaultName env)
      in if email = [] then None
         else Some (if name \<noteq> [] then name @ '' <'' @ email @ ''>'' else email))"
  by (simp add: resolveFromHeader_def orElse_def truthy_def Let_def split: option.split)

lemma POST_missing_sender:
  assumes "requestIssues isEmail req = []"
    and "resolveFromHeader env
           (case req_from req of
              Some frm \<Rightarrow> frm
            | None \<Rightarrow> \<lparr>from_email = None, from_name = None\<rparr>) = None"
  shows "POST isEmail env transport (Some req) =
           (\<lparr>status = 400, ok = False,
             message = ''Missing sender identity. Supply from.email in the request or configure MAIL_FROM (and optional MAIL_FROM_NAME) environment variables.'',
             issues = None\<rparr>,
            \<lparr>attempts = [], console = []\<rparr>)"
  using assms by (simp add: POST_def safeParse_def Let_def)

lemma sendFlat_taken:
  "\<exists>k. snd (sendFlat transport fromHeader pairs history) =
         history @ map (mailOf fromHeader) (take k pairs) \<and>
       (pairs \<noteq> [] \<longrightarrow> 0 < k)"
proof (induction pairs arbitrary: history)
  case Nil
  then show ?case by simp
next
  case (Cons pair rest)
  show ?case
  proof (cases "transport history (mailOf fromHeader pair)")
    case True
    from Cons.IH[of "history @ [mailOf fromHeader pair]"]
    obtain k where "snd (sendFlat transport fromHeader rest (history @ [mailOf fromHeader pair])) =
                    (history @ [mailOf fromHeader pair]) @ map (mailOf fromHeader) (take k rest)"
      by blast
    with True have "snd (sendFlat transport fromHeader (pair # rest) history) =
                    history @ map (mailOf fromHeader) (take (Suc k) (pair # rest))"
      by simp
    then show ?thesis
      by blast
  next
    case False
    then have "snd (sendFlat transport fromHeader (pair # rest) history) =
               history @ map (mailOf fromHeader) (take (Suc 0) (pair # rest))"
      by simp
    then show ?thesis
      by blast
  qed
qed

lemma valid_request_has_pairs:
  assumes "requestIssues isEmail req = []"
  shows "agentRecipientPairs (req_agents req) \<noteq> []"
proof -
  from assms obtain agent rest where agents: "req_agents req = agent # rest"
    unfolding requestIssues_empty by (cases "req_agents req") auto
  with assms have "p_recipients agent \<noteq> []"
    unfolding requestIssues_empty by simp
  with agents show ?thesis
    by (simp add: agentRecipientPairs_def)
qed

lemma POST_attempts:
  assumes "requestIssues isEmail req = []"
    and "resolveFromHeader env
           (case req_from req of
              Some frm \<Rightarrow> frm
            | None \<Rightarrow> \<lparr>from_email = None, from_name = None\<rparr>) = Some fromHeader"
  shows "attempts (snd (POST isEmail env transport (Some req))) =
           snd (sendFlat transport fromHeader (agentRecipientPairs (req_agents req)) []) \<and>
         (status (fst (POST isEmail env transport (Some req))) = 200 \<or>
          status (fst (POST isEmail env transport (Some req))) = 500)"
proof -
  obtain res w where d: "dispatchAgents transport (dryRunOf env) fromHeader (req_agents req) []
                           \<lparr>attempts = [], console = []\<rparr> = (res, w)"
    by (cases "dispatchAgents transport (dryRunOf env) fromHeader (req_agents req) []
                 \<lparr>attempts = [], console = []\<rparr>")
  from dispatchAgents_flat[of transport "dryRunOf env" fromHeader "req_agents req" "[]"
      "\<lparr>attempts = [], console = []\<rparr>"] d
  have "attempts w = snd (sendFlat transport fromHeader (agentRecipientPairs (req_agents req)) [])"
    by simp
  moreover have "attempts (snd (POST isEmail env transport (Some req))) = attempts w"
    using d by (cases res) (simp_all add: POST_dispatch[OF assms])
  moreover have "status (fst (POST isEmail env transport (Some req))) = 200 \<or>
                 status (fst (POST isEmail env transport (Some req))) = 500"
    using d by (cases res) (simp_all add: POST_dispatch[OF assms])
  ultimately show ?thesis
    by simp
qed

text \<open>
  C8. For a structurally valid request (one for which the schema reports no issue;
  lemma \<open>requestIssues_empty\<close> spells the condition out) the sender email is
  \<open>from.email\<close> when the request has a non-empty one, and the default of the
  environment otherwise (the name likewise). When that email is empty, no sender is
  resolved, the answer is the missing-sender answer, status 400, and nothing was handed
  to the transport. Otherwise the sender is resolved to the header built from that email
  and name, the handler goes on to the dispatch (its answer is the success or the
  dispatch failure, not the missing-sender answer), at least the first message is handed
  to the transport, and the messages handed over are the messages of the first
  agent-recipient pairs, in order, each carrying that header as its sender.
\<close>

theorem sender_identity_resolution:
  assumes "requestIssues isEmail req = []"
  shows "(let frm = (case req_from req of
                      Some f \<Rightarrow> f
                    | None \<Rightarrow> \<lparr>from_email = None, from_name = None\<rparr>);
              email = (case from_email frm of
                         Some e \<Rightarrow> if e \<noteq> [] then e else defaultEmail env
                       | None \<Rightarrow> defaultEmail env);
              name = (case from_name frm of
                        Some n \<Rightarrow> if n \<noteq> [] then n else defaultName env
                      | None \<Rightarrow> defaultName env);
              header = (if name \<noteq> [] then name @ '' <'' @ email @ ''>'' else email)
          in (email = [] \<longrightarrow>
                resolveFromHeader env frm = None \<and>
                POST isEmail env transport (Some req) =
                  (\<lparr>status = 400, ok = False,
                    message = ''Missing sender identity. Supply from.email in the request or configure MAIL_FROM (and optional MAIL_FROM_NAME) environment variables.'',
                    issues = None\<rparr>,
                   \<lparr>attempts = [], console = []\<rparr>)) \<and>
             (email \<noteq> [] \<longrightarrow>
                resolveFromHeader env frm = Some header \<and>
                (status (fst (POST isEmail env transport (Some req))) = 200 \<or>
                 status (fst (POST isEmail env transport (Some req))) = 500) \<and>
                attempts (snd (POST isEmail env transport (Some req))) \<noteq> [] \<and>
                prefix (attempts (snd (POST isEmail env transport (Some req))))
                  (map (mailOf header) (agentRecipientPairs (req_agents req))) \<and>
                (\<forall>m \<in> set (attempts (snd (POST isEmail env transport (Some req)))).
                   m_from m = header)))"
proof -
  define frm where "frm = (case req_from req of
                      Some f \<Rightarrow> f
                    | None \<Rightarrow> \<lparr>from_email = None, from_name = None\<rparr>)"
  define email where "email = (case from_email frm of
                         Some e \<Rightarrow> if e \<noteq> [] then e else defaultEmail env
                       | None \<Rightarrow> defaultEmail env)"
  define name where "name = (case from_name frm of
                        Some n \<Rightarrow> if n \<noteq> [] then n else defaultName env
                      | None \<Rightarrow> defaultName env)"
  define header where "header = (if name \<noteq> [] then name @ '' <'' @ email @ ''>'' else email)"
  have r: "resolveFromHeader env frm = (if email = [] then None else Some header)"
    unfolding email_def name_def header_def by (simp add: resolveFromHeader_eq Let_def)
  have a: "resolveFromHeader env frm = None \<and>
           POST isEmail env transport (Some req) =
                  (\<lparr>status = 400, ok = False,
                    message = ''Missing sender identity. Supply from.email in the request or configure MAIL_FROM (and optional MAIL_FROM_NAME) environment variables.'',
                    issues = None\<rparr>,
                   \<lparr>attempts = [], console = []\<rparr>)" if "email = []"
    using that r POST_missing_sender[OF assms, of env transport] by (simp add: frm_def)
  have b: "resolveFromHeader env frm = Some header \<and>
           (status (fst (POST isEmail env transport (Some req))) = 200 \<or>
            status (fst (POST isEmail env transport (Some req))) = 500) \<and>
           attempts (snd (POST isEmail env transport (Some req))) \<noteq> [] \<and>
           prefix (attempts (snd (POST isEmail env transport (Some req))))
             (map (mailOf header) (agentRecipientPairs (req_agents req))) \<and>
           (\<forall>m \<in> set (attempts (snd (POST isEmail env transport (Some req)))).
              m_from m = header)"
    if "email \<noteq> []"
  proof -
    from that r have h: "resolveFromHeader env
           (case req_from req of
              Some frm \<Rightarrow> frm
            | None \<Rightarrow> \<lparr>from_email = None, from_name = None\<rparr>) = Some header"
      by (simp add: frm_def)
    note p = POST_attempts[OF assms h, of transport]
    obtain k where k: "snd (sendFlat transport header (agentRecipientPairs (req_agents req)) []) =
                       map (mailOf header) (take k (agentRecipientPairs (req_agents req)))"
      and pos: "0 < k"
      using sendFlat_taken[of transport header "agentRecipientPairs (req_agents req)" "[]"]
        valid_request_has_pairs[OF assms] by auto
    have att: "attempts (snd (POST isEmail env transport (Some req))) =
               take k (map (mailOf header) (agentRecipientPairs (req_agents req)))"
      using p k by (simp add: take_map)
    have "attempts (snd (POST isEmail env transport (Some req))) \<noteq> []"
      unfolding att using pos valid_request_has_pairs[OF assms] by simp
    moreover have "prefix (attempts (snd (POST isEmail env transport (Some req))))
                     (map (mailOf header) (agentRecipientPairs (req_agents req)))"
      unfolding att by (rule take_is_prefix)
    moreover have "\<forall>m \<in> set (attempts (snd (POST isEmail env transport (Some req)))).
                     m_from m = header"
      unfolding att by (auto dest!: in_set_takeD simp: mailOf_from)
    ultimately show ?thesis
      using that r p by (simp add: frm_def)
  qed
  from a b show ?thesis
    unfolding Let_def frm_def[symmetric] email_def[symmetric] name_def[symmetric]
      header_def[symmetric]
    by blast
qed

theorem sender_identity_resolution_witness:
  "POST hasAtSign emptyEnv alwaysAccepts (Some exampleRequest) =
     (\<lparr>status = 400, ok = False,
       message = ''Missing sender identity. Supply from.email in the request or configure MAIL_FROM (and optional MAIL_FROM_NAME) environment variables.'',
       issues = None\<rparr>,
      \<lparr>attempts = [], console = []\<rparr>) \<and>
   attempts (snd (POST hasAtSign exampleEnv alwaysAccepts
        (Some (exampleRequest\<lparr>req_from := Some \<lparr>from_email = Some ''me@example.com'',
                                                 from_name = Some ''Growth Team''\<rparr>\<rparr>)))) \<noteq> [] \<and>
   list_all (\<lambda>m. m_from m = ''Growth Team <me@example.com>'')
     (attempts (snd (POST hasAtSign exampleEnv alwaysAccepts
        (Some (exampleRequest\<lparr>req_from := Some \<lparr>from_email = Some ''me@example.com'',
                                                 from_name = Some ''Growth Team''\<rparr>\<rparr>))))) \<and>
   attempts (snd (POST hasAtSign exampleEnv alwaysAccepts (Some exampleRequest))) \<noteq> [] \<and>
   list_all (\<lambda>m. m_from m = ''ops@example.com <ops@example.com>'')
     (attempts (snd (POST hasAtSign exampleEnv alwaysAccepts (Some exampleRequest))))"
proof -
  let ?R = "exampleRequest\<lparr>req_from := Some \<lparr>from_email = Some ''me@example.com'',
                                               from_name = Some ''Growth Team''\<rparr>\<rparr>"
  have h1: "requestIssues hasAtSign exampleRequest = []"
    by code_simp
  have h2: "requestIssues hasAtSign ?R = []"
    by code_simp
  have e1: "(case from_email (case req_from exampleRequest of
                      Some f \<Rightarrow> f
                    | None \<Rightarrow> \<lparr>from_email = None, from_name = None\<rparr>) of
                         Some e \<Rightarrow> if e \<noteq> [] then e else defaultEmail emptyEnv
                       | None \<Rightarrow> defaultEmail emptyEnv) = []"
    by code_simp
  have e2: "(case from_email (case req_from ?R of
                      Some f \<Rightarrow> f
                    | None \<Rightarrow> \<lparr>from_email = None, from_name = None\<rparr>) of
                         Some e \<Rightarrow> if e \<noteq> [] then e else defaultEmail exampleEnv
                       | None \<Rightarrow> defaultEmail exampleEnv) = ''me@example.com''"
    by code_simp
  have n2: "(case from_name (case req_from ?R of
                      Some f \<Rightarrow> f
                    | None \<Rightarrow> \<lparr>from_email = None, from_name = None\<rparr>) of
                         Some n \<Rightarrow> if n \<noteq> [] then n else defaultName exampleEnv
                       | None \<Rightarrow> defaultName exampleEnv) = ''Growth Team''"
    by code_simp
  have e3: "(case from_email (case req_from exampleRequest of
                      Some f \<Rightarrow> f
                    | None \<Rightarrow> \<lparr>from_email = None, from_name = None\<rparr>) of
                         Some e \<Rightarrow> if e \<noteq> [] then e else defaultEmail exampleEnv
                       | None \<Rightarrow> defaultEmail exampleEnv) = ''ops@example.com''"
    by code_simp
  have n3: "(case from_name (case req_from exampleRequest of
                      Some f \<Rightarrow> f
                    | None \<Rightarrow> \<lparr>from_email = None, from_name = None\<rparr>) of
                         Some n \<Rightarrow> if n \<noteq> [] then n else defaultName exampleEnv
                       | None \<Rightarrow> defaultName exampleEnv) = ''ops@example.com''"
    by code_simp
  note a = sender_identity_resolution[OF h1, of emptyEnv alwaysAccepts, unfolded Let_def e1]
  note b = sender_identity_resolution[OF h2, of exampleEnv alwaysAccepts, unfolded Let_def e2 n2]
  note c = sender_identity_resolution[OF h1, of exampleEnv alwaysAccepts, unfolded Let_def e3 n3]
  from a b c show ?thesis
    by (simp add: list_all_iff)
qed

lemma POST_all_accepted:
  assumes "requestIssues isEmail req = []"
    and "resolveFromHeader env
           (case req_from req of
              Some frm \<Rightarrow> frm
            | None \<Rightarrow> \<lparr>from_email = None, from_name = None\<rparr>) = Some fromHeader"
    and "acceptsAll transport [] (map (mailOf fromHeader) (agentRecipientPairs (req_agents req)))"
  shows "attempts (snd (POST isEmail env transport (Some req))) =
           map (mailOf fromHeader) (agentRecipientPairs (req_agents req)) \<and>
         fst (POST isEmail env transport (Some req)) =
           \<lparr>status = 200, ok = True,
            message =
              (if dryRunOf env
               then ''Dry run: generated '' @
                    showNat (length (agentRecipientPairs (req_agents req))) @
                    '' email payloads across '' @ showNat (length (req_agents req)) @
                    '' agents. Configure SMTP_HOST to send live emails.''
               else ''Dispatched '' @
                    showNat (length (agentRecipientPairs (req_agents req))) @
                    '' emails across '' @ showNat (length (req_agents req)) @ '' agents.''),
            issues = None\<rparr>"
proof -
  obtain res w where d: "dispatchAgents transport (dryRunOf env) fromHeader (req_agents req) []
                           \<lparr>attempts = [], console = []\<rparr> = (res, w)"
    by (cases "dispatchAgents transport (dryRunOf env) fromHeader (req_agents req) []
                 \<lparr>attempts = [], console = []\<rparr>")
  have f: "sendFlat transport fromHeader (agentRecipientPairs (req_agents req)) [] =
           (None, map (mailOf fromHeader) (agentRecipientPairs (req_agents req)))"
    using sendFlat_accepted[OF assms(3)] by simp
  from dispatchAgents_flat[of transport "dryRunOf env" fromHeader "req_agents req" "[]"
      "\<lparr>attempts = [], console = []\<rparr>"] d f
  have "res = Inr (map (\<lambda>agent. (p_id agent, length (p_recipients agent))) (req_agents req))"
    and "attempts w = map (mailOf fromHeader) (agentRecipientPairs (req_agents req))"
    by simp_all
  with d show ?thesis
    by (simp add: POST_dispatch[OF assms(1,2)] summary_total)
qed

lemma length_agentRecipientPairs:
  "length (agentRecipientPairs agents) = sum_list (map (\<lambda>agent. length (p_recipients agent)) agents)"
  by (induction agents) (simp_all add: agentRecipientPairs_def)

text \<open>
  C2. With an email column chosen and every agent's recipients resolved, the distinct
  count is the number of elements of the union, over all agents, of the \<open>to\<close> values of
  the recipients resolved for the agent. It is 0 without an upload or without an email
  column, and the count throws exactly when the resolution for some agent does. The
  dispatch of a valid request whose messages the transport all accepts hands over one
  message per agent-recipient pair, in order: as many as the recipient lists are long in
  total. The example after the theorem has two agents that match the same row: the
  count is 1, the sends are 2.
\<close>

theorem distinct_count_vs_send_count:
  "totalRecipients None emailColumn agents = Inr 0 \<and>
   totalRecipients (Some u) [] agents = Inr 0 \<and>
   (emailColumn \<noteq> [] \<and>
    (\<forall>agent \<in> set agents.
       resolveRecipients (u_rows u) emailColumn nameColumn agent = Inr (resolved agent)) \<longrightarrow>
      totalRecipients (Some u) emailColumn agents =
        Inr (card (\<Union>agent \<in> set agents. r_to ` set (resolved agent)))) \<and>
   (emailColumn \<noteq> [] \<and>
    (\<exists>agent \<in> set agents.
       resolveRecipients (u_rows u) emailColumn nameColumn agent = Inl TypeError) \<longrightarrow>
      totalRecipients (Some u) emailColumn agents = Inl TypeError) \<and>
   (requestIssues isEmail req = [] \<and>
    resolveFromHeader env
      (case req_from req of
         Some frm \<Rightarrow> frm
       | None \<Rightarrow> \<lparr>from_email = None, from_name = None\<rparr>) = Some fromHeader \<and>
    acceptsAll transport [] (map (mailOf fromHeader) (agentRecipientPairs (req_agents req))) \<longrightarrow>
      attempts (snd (POST isEmail env transport (Some req))) =
        map (mailOf fromHeader) (agentRecipientPairs (req_agents req)) \<and>
      length (attempts (snd (POST isEmail env transport (Some req)))) =
        sum_list (map (\<lambda>agent. length (p_recipients agent)) (req_agents req)))"
  using totalRecipients_card[of emailColumn agents u nameColumn resolved]
    totalRecipients_throws[of emailColumn agents u nameColumn]
    POST_all_accepted[of isEmail req env fromHeader transport]
  by (simp add: length_agentRecipientPairs[symmetric] totalRecipients_def truthy_def)

theorem distinct_count_vs_send_count_witness:
  "totalRecipients (Some exampleUpload) ''Email'' [generalOutreach, followUp] = Inr 1 \<and>
   handleSend (Some exampleUpload) ''Email'' ''Name'' [generalOutreach, followUp]
     ''ops@example.com'' [] =
     Fetch \<lparr>req_agents =
              [\<lparr>p_id = ''1'', p_name = ''General Outreach'',
                p_recipients = projr (resolveRecipients (u_rows exampleUpload) ''Email'' ''Name''
                                        generalOutreach)\<rparr>,
               \<lparr>p_id = ''2'', p_name = ''Follow-up'',
                p_recipients = projr (resolveRecipients (u_rows exampleUpload) ''Email'' ''Name''
                                        followUp)\<rparr>],
            req_from = Some \<lparr>from_email = Some ''ops@example.com'', from_name = Some []\<rparr>\<rparr> \<and>
   length (attempts (snd (POST hasAtSign emptyEnv alwaysAccepts
     (Some \<lparr>req_agents =
              [\<lparr>p_id = ''1'', p_name = ''General Outreach'',
                p_recipients = projr (resolveRecipients (u_rows exampleUpload) ''Email'' ''Name''
                                        generalOutreach)\<rparr>,
               \<lparr>p_id = ''2'', p_name = ''Follow-up'',
                p_recipients = projr (resolveRecipients (u_rows exampleUpload) ''Email'' ''Name''
                                        followUp)\<rparr>],
            req_from = Some \<lparr>from_email = Some ''ops@example.com'',
                               from_name = Some []\<rparr>\<rparr>)))) = 2"
proof -
  let ?resolved = "\<lambda>agent. projr (resolveRecipients (u_rows exampleUpload) ''Email'' ''Name'' agent)"
  let ?R = "\<lparr>req_agents =
              [\<lparr>p_id = ''1'', p_name = ''General Outreach'',
                p_recipients = ?resolved generalOutreach\<rparr>,
               \<lparr>p_id = ''2'', p_name = ''Follow-up'',
                p_recipients = ?resolved followUp\<rparr>],
            req_from = Some \<lparr>from_email = Some ''ops@example.com'', from_name = Some []\<rparr>\<rparr>"
  have h0: "''Email'' \<noteq> []"
    by simp
  have r1: "resolveRecipients (u_rows exampleUpload) ''Email'' ''Name'' generalOutreach =
            Inr (?resolved generalOutreach)"
    by code_simp
  have r2: "resolveRecipients (u_rows exampleUpload) ''Email'' ''Name'' followUp =
            Inr (?resolved followUp)"
    by code_simp
  have hr: "\<forall>agent \<in> set [generalOutreach, followUp].
              resolveRecipients (u_rows exampleUpload) ''Email'' ''Name'' agent =
              Inr (?resolved agent)"
    using r1 r2 by simp
  have h1: "requestIssues hasAtSign ?R = []"
    by code_simp
  have h2: "resolveFromHeader emptyEnv
              (case req_from ?R of
                 Some frm \<Rightarrow> frm
               | None \<Rightarrow> \<lparr>from_email = None, from_name = None\<rparr>) = Some ''ops@example.com''"
    by code_simp
  have h3: "acceptsAll alwaysAccepts []
              (map (mailOf ''ops@example.com'') (agentRecipientPairs (req_agents ?R)))"
    by code_simp
  note t = distinct_count_vs_send_count[where emailColumn = "''Email''"
      and u = exampleUpload and agents = "[generalOutreach, followUp]"
      and nameColumn = "''Name''" and resolved = ?resolved
      and isEmail = hasAtSign and req = ?R and env = emptyEnv
      and fromHeader = "''ops@example.com''" and transport = alwaysAccepts]
  have c: "card (\<Union>agent \<in> set [generalOutreach, followUp]. r_to ` set (?resolved agent)) = 1"
    by code_simp
  have l: "sum_list (map (\<lambda>agent. length (p_recipients agent)) (req_agents ?R)) = 2"
    by code_simp
  have s: "handleSend (Some exampleUpload) ''Email'' ''Name'' [generalOutreach, followUp]
             ''ops@example.com'' [] = Fetch ?R"
    by code_simp
  have "totalRecipients (Some exampleUpload) ''Email'' [generalOutreach, followUp] =
        Inr (card (\<Union>agent \<in> set [generalOutreach, followUp]. r_to ` set (?resolved agent)))"
    using t h0 hr by blast
  also have "\<dots> = Inr 1"
    by (simp only: c)
  finally have first: "totalRecipients (Some exampleUpload) ''Email''
                         [generalOutreach, followUp] = Inr 1" .
  have "length (attempts (snd (POST hasAtSign emptyEnv alwaysAccepts (Some ?R)))) =
        sum_list (map (\<lambda>agent. length (p_recipients agent)) (req_agents ?R))"
    using t h1 h2 h3 by blast
  also have "\<dots> = 2"
    by (rule l)
  finally have third:
    "length (attempts (snd (POST hasAtSign emptyEnv alwaysAccepts (Some ?R)))) = 2" .
  from first s third show ?thesis
    by blast
qed
end
